theory Spec2Isabelle
  imports Main "HOL-Library.Sublist"
begin

section \<open>Results, failures and collaborators of the delete-user-data activity\<close>

text \<open>
  The activity of \<^verbatim>\<open>DeleteUserDataActivity/handler.ts\<close> walks the documents owned by a
  user, saves a backup blob for each of them and deletes it. Its collaborators (the
  document models, the blob services, the result iterators) are external: a collaborator
  method is represented by the answer it gives to a call with given arguments, and every
  function of the activity returns, next to its result, the list of collaborator calls it
  has made. The \<^verbatim>\<open>debug\<close> helper, which prints when \<^verbatim>\<open>DEBUG\<close> is set and returns
  its argument, is left out.

  A promise of an \<^verbatim>\<open>Either\<close> either rejects or resolves to a left or a right value.
  The left value is a \<^verbatim>\<open>QueryError\<close> (kept as its JSON text) or an \<^verbatim>\<open>Error\<close> (kept
  as its message), a rejection is kept as the message \<^verbatim>\<open>toError\<close> gives it.
\<close>

datatype query_error = AnError string | AQueryError string

datatype 'r promised = Rejected string | Resolved "query_error + 'r"

text \<open>The tagged union \<^verbatim>\<open>ActivityResultFailure\<close> and the activity result.\<close>

datatype ActivityResultFailure =
    UserNotFound
  | QueryFailure string "string option"
  | InvalidInputFailure string
  | BlobCreationFailure string
  | DocumentDeleteFailure string

datatype ActivityResult =
    ActivityResultSuccess
  | ActivityResultFailure ActivityResultFailure

fun failure_kind :: "ActivityResultFailure \<Rightarrow> string" where
  "failure_kind UserNotFound = ''USER_NOT_FOUND_FAILURE''"
| "failure_kind (QueryFailure reason query) = ''QUERY_FAILURE''"
| "failure_kind (InvalidInputFailure reason) = ''INVALID_INPUT_FAILURE''"
| "failure_kind (BlobCreationFailure reason) = ''BLOB_FAILURE''"
| "failure_kind (DocumentDeleteFailure reason) = ''DELETE_FAILURE''"

fun kind :: "ActivityResult \<Rightarrow> string" where
  "kind ActivityResultSuccess = ''SUCCESS''"
| "kind (ActivityResultFailure f) = failure_kind f"

text \<open>
  \<^verbatim>\<open>DataFailure\<close> is the union of the query, blob and delete failures; the union being
  untagged at run time, it shares the type of the failures.
\<close>

type_synonym DataFailure = ActivityResultFailure

text \<open>The documents, with the fields the activity reads.\<close>

record RetrievedProfile =
  profile_fiscalCode :: string
  profile_id :: string
  profile_version :: nat

record RetrievedNotification =
  notification_id :: string
  notification_messageId :: string

record RetrievedNotificationStatus =
  notificationStatus_notificationId :: string
  notificationStatus_id :: string
  notificationStatus_version :: nat

record RetrievedMessageWithoutContent =
  message_id :: string
  message_fiscalCode :: string

record RetrievedMessageStatus =
  messageStatus_messageId :: string
  messageStatus_id :: string
  messageStatus_version :: nat

datatype MessageContent = MessageContent string

datatype document =
    Profile RetrievedProfile
  | Notification RetrievedNotification
  | NotificationStatus RetrievedNotificationStatus
  | Message RetrievedMessageWithoutContent
  | MessageStatus RetrievedMessageStatus
  | Content MessageContent

text \<open>The queries behind the result iterators, and the calls made to collaborators.\<close>

datatype query =
    ProfileVersions string
  | MessageStatusVersions string
  | NotificationStatusVersions string

datatype call =
    ExecuteNext query
  | CreateBlockBlobFromText string string string
  | DeleteProfileVersion string string
  | DeleteNotification string string
  | DeleteNotificationStatusVersion string string
  | DeleteMessage string string
  | DeleteMessageStatusVersion string string
  | GetContentFromBlob string
  | DeleteContentFromBlob string
  | FindMessages string
  | FindNotificationsForMessage string
  | LogError string

text \<open>
  A result iterator is the list of answers its next calls of \<^verbatim>\<open>executeNext\<close> will give;
  once the list is used up the iterator answers with no page.
\<close>

record 'a IResultIterator =
  source :: query
  pending :: "'a list option promised list"

definition executeNext :: "'a IResultIterator \<Rightarrow> 'a list option promised \<times> 'a IResultIterator" where
  "executeNext it = (case pending it of
      [] \<Rightarrow> (Resolved (Inr None), it)
    | p # ps \<Rightarrow> (p, it\<lparr>pending := ps\<rparr>))"

text \<open>
  The blob service answers \<^verbatim>\<open>createBlockBlobFromText(container, blob, text, cb)\<close> with
  the message of the error handed to the callback, if any.
\<close>

type_synonym BlobService = "string \<Rightarrow> string \<Rightarrow> string \<Rightarrow> string option"

record IBlobServiceInfo =
  blobService :: BlobService
  containerName :: string
  folder :: "string option"

text \<open>
  The document models and the message content store. The two queries consumed through
  \<^verbatim>\<open>iteratorToArray\<close> are represented by the promise that call returns.
\<close>

record Models =
  JSON_stringify :: "document \<Rightarrow> string"
  deleteProfileVersion :: "string \<Rightarrow> string \<Rightarrow> string promised"
  findAllProfileVersions :: "string \<Rightarrow> RetrievedProfile list option promised list"
  deleteNotification :: "string \<Rightarrow> string \<Rightarrow> string promised"
  findNotificationsForMessage :: "string \<Rightarrow> RetrievedNotification list promised"
  deleteNotificationStatusVersion :: "string \<Rightarrow> string \<Rightarrow> string promised"
  findAllVersionsByNotificationId :: "string \<Rightarrow> RetrievedNotificationStatus list option promised list"
  deleteMessage :: "string \<Rightarrow> string \<Rightarrow> string promised"
  findMessages :: "string \<Rightarrow> RetrievedMessageWithoutContent list promised"
  getContentFromBlob :: "string \<Rightarrow> MessageContent option promised"
  deleteContentFromBlob :: "string \<Rightarrow> bool promised"
  deleteMessageStatusVersion :: "string \<Rightarrow> string \<Rightarrow> string promised"
  findAllMessageStatusVersions :: "string \<Rightarrow> RetrievedMessageStatus list option promised list"

section \<open>Tasks\<close>

text \<open>
  A \<^verbatim>\<open>TaskEither\<close> that has run is its left or right value and the calls it made. The
  combinators are those of fp-ts: \<^verbatim>\<open>chain\<close> and the sequential applicative run the
  second task only when the first one succeeded; the parallel applicative runs both
  tasks and keeps the failure of the first one over the failure of the second one. The
  calls of tasks joined in parallel are listed task after task, in the order of the
  arguments: the list tells which calls are made, not how concurrent calls interleave.
\<close>

type_synonym ('l, 'a) TaskEither = "('l + 'a) \<times> call list"

definition taskEither_of :: "'a \<Rightarrow> ('l, 'a) TaskEither" where
  "taskEither_of a = (Inr a, [])"

definition map_task :: "('a \<Rightarrow> 'b) \<Rightarrow> ('l, 'a) TaskEither \<Rightarrow> ('l, 'b) TaskEither" where
  "map_task f t = (case fst t of Inl l \<Rightarrow> Inl l | Inr a \<Rightarrow> Inr (f a), snd t)"

definition mapLeft :: "('l \<Rightarrow> 'm) \<Rightarrow> ('l, 'a) TaskEither \<Rightarrow> ('m, 'a) TaskEither" where
  "mapLeft f t = (case fst t of Inl l \<Rightarrow> Inl (f l) | Inr a \<Rightarrow> Inr a, snd t)"

definition foldTaskEither ::
  "('l \<Rightarrow> ('m, 'b) TaskEither) \<Rightarrow> ('a \<Rightarrow> ('m, 'b) TaskEither) \<Rightarrow> ('l, 'a) TaskEither
     \<Rightarrow> ('m, 'b) TaskEither" where
  "foldTaskEither onLeft onRight t =
     (case fst t of
        Inl l \<Rightarrow> (fst (onLeft l), snd t @ snd (onLeft l))
      | Inr a \<Rightarrow> (fst (onRight a), snd t @ snd (onRight a)))"

definition chain :: "('l, 'a) TaskEither \<Rightarrow> ('a \<Rightarrow> ('l, 'b) TaskEither) \<Rightarrow> ('l, 'b) TaskEither" where
  "chain t f = foldTaskEither (\<lambda>l. (Inl l, [])) f t"

definition ap_seq :: "('l, 'a \<Rightarrow> 'b) TaskEither \<Rightarrow> ('l, 'a) TaskEither \<Rightarrow> ('l, 'b) TaskEither" where
  "ap_seq fab fa = chain fab (\<lambda>f. map_task f fa)"

definition ap_par :: "('l, 'a \<Rightarrow> 'b) TaskEither \<Rightarrow> ('l, 'a) TaskEither \<Rightarrow> ('l, 'b) TaskEither" where
  "ap_par fab fa =
     (case fst fab of
        Inl l \<Rightarrow> Inl l
      | Inr f \<Rightarrow> (case fst fa of Inl l \<Rightarrow> Inl l | Inr a \<Rightarrow> Inr (f a)),
      snd fab @ snd fa)"

definition sequenceT_seq ::
  "('l, 'a) TaskEither \<Rightarrow> ('l, 'b) TaskEither \<Rightarrow> ('l, 'a \<times> 'b) TaskEither" where
  "sequenceT_seq a b = ap_seq (map_task Pair a) b"

definition sequenceT_par ::
  "('l, 'a) TaskEither \<Rightarrow> ('l, 'b) TaskEither \<Rightarrow> ('l, 'c) TaskEither
     \<Rightarrow> ('l, 'a \<times> 'b \<times> 'c) TaskEither" where
  "sequenceT_par a b c = ap_par (ap_par (map_task (\<lambda>x y z. (x, y, z)) a) b) c"

definition array_sequence :: "('l, 'a) TaskEither list \<Rightarrow> ('l, 'a list) TaskEither" where
  "array_sequence ts =
     foldl (\<lambda>fas fa. ap_par (map_task (\<lambda>as a. as @ [a]) fas) fa) (taskEither_of []) ts"

text \<open>
  \<^verbatim>\<open>fromQueryEither\<close> runs a lazy promise, the call \<open>c\<close> with answer \<open>p\<close>, and turns
  a rejection and a left value alike into an \<^verbatim>\<open>Error\<close>, kept as its message.
\<close>

definition fromQueryEither :: "call \<Rightarrow> 'r promised \<Rightarrow> (string, 'r) TaskEither" where
  "fromQueryEither c p =
     (case p of
        Rejected m \<Rightarrow> Inl m
      | Resolved (Inl (AnError m)) \<Rightarrow> Inl m
      | Resolved (Inl (AQueryError j)) \<Rightarrow> Inl (''QueryError: '' @ j)
      | Resolved (Inr r) \<Rightarrow> Inr r,
      [c])"

fun toQueryFailure :: "query_error \<Rightarrow> ActivityResultFailure" where
  "toQueryFailure (AnError m) = QueryFailure m None"
| "toQueryFailure (AQueryError j) = QueryFailure (''QueryError: '' @ j) None"

definition toDocumentDeleteFailure :: "string \<Rightarrow> ActivityResultFailure" where
  "toDocumentDeleteFailure m = DocumentDeleteFailure m"

section \<open>Saving a backup blob\<close>

text \<open>
  The blob is named \<^verbatim>\<open>${folder}${folder ? "/" : ""}${blobName}\<close>; a missing folder is
  printed by the template as \<^verbatim>\<open>undefined\<close>. The text written is the JSON of the data,
  \<open>js\<close> standing for \<^verbatim>\<open>JSON.stringify\<close> at the type of the data.
\<close>

definition blobPath :: "string option \<Rightarrow> string \<Rightarrow> string" where
  "blobPath fo blobName =
     (case fo of
        None \<Rightarrow> ''undefined'' @ blobName
      | Some f \<Rightarrow> f @ (if f \<noteq> [] then ''/'' else []) @ blobName)"

definition saveDataToBlob ::
  "('a \<Rightarrow> string) \<Rightarrow> IBlobServiceInfo \<Rightarrow> string \<Rightarrow> 'a \<Rightarrow> (ActivityResultFailure, 'a) TaskEither" where
  "saveDataToBlob js info blobName d =
     (case blobService info (containerName info) (blobPath (folder info) blobName) (js d) of
        Some msg \<Rightarrow> Inl (BlobCreationFailure msg)
      | None \<Rightarrow> Inr d,
      [CreateBlockBlobFromText (containerName info) (blobPath (folder info) blobName) (js d)])"

section \<open>The recursive walker\<close>

text \<open>
  \<^verbatim>\<open>executeRecursiveBackupAndDelete\<close> asks the iterator for a page. A failed query is a
  query failure, no page ends the recursion with the empty array. For a page, every item
  gets the sequential task "save the blob, delete the item, recursive step", mapped to
  \<^verbatim>\<open>[item, ...nextResults]\<close>, and the tasks of the items are joined by the parallel
  \<^verbatim>\<open>array.sequence\<close>: all of them run and the first failure in page order is kept. The
  recursive step of every item works on the one iterator of the walk, so the iterator is
  threaded through the items: the tasks of a page run concurrently, and here they are run
  in page order, which settles the page that each recursive step receives. The value of a
  successful walk is an array with one array per item of the page, which holds the item
  followed by the values of its recursive step.
\<close>

datatype 'a nested = Item 'a | Nested "'a nested list"

fun liftQuery :: "'r promised \<Rightarrow> DataFailure + 'r" where
  "liftQuery (Rejected m) = Inl (toQueryFailure (AnError m))"
| "liftQuery (Resolved (Inl e)) = Inl (toQueryFailure e)"
| "liftQuery (Resolved (Inr r)) = Inr r"

function executeRecursiveBackupAndDelete ::
  "('a \<Rightarrow> string) \<Rightarrow> ('a \<Rightarrow> call \<times> string promised) \<Rightarrow> IBlobServiceInfo \<Rightarrow> ('a \<Rightarrow> string)
     \<Rightarrow> 'a IResultIterator \<Rightarrow> (DataFailure + 'a nested list) \<times> call list \<times> 'a IResultIterator"
and backupAndDeleteItems ::
  "('a \<Rightarrow> string) \<Rightarrow> ('a \<Rightarrow> call \<times> string promised) \<Rightarrow> IBlobServiceInfo \<Rightarrow> ('a \<Rightarrow> string)
     \<Rightarrow> 'a list \<Rightarrow> 'a IResultIterator
     \<Rightarrow> (DataFailure + 'a nested list) \<times> call list \<times> 'a IResultIterator"
and backupAndDeleteItem ::
  "('a \<Rightarrow> string) \<Rightarrow> ('a \<Rightarrow> call \<times> string promised) \<Rightarrow> IBlobServiceInfo \<Rightarrow> ('a \<Rightarrow> string)
     \<Rightarrow> 'a \<Rightarrow> 'a IResultIterator \<Rightarrow> (DataFailure + 'a nested) \<times> call list \<times> 'a IResultIterator"
where
  "executeRecursiveBackupAndDelete js deleteSingle userDataBackup makeBackupBlobName it =
     (case liftQuery (fst (executeNext it)) of
        Inl e \<Rightarrow> (Inl e, [ExecuteNext (source it)], snd (executeNext it))
      | Inr None \<Rightarrow> (Inr [], [ExecuteNext (source it)], snd (executeNext it))
      | Inr (Some items) \<Rightarrow>
          (case backupAndDeleteItems js deleteSingle userDataBackup makeBackupBlobName items
                  (snd (executeNext it)) of
             (r, cs, it') \<Rightarrow> (r, ExecuteNext (source it) # cs, it')))"
| "backupAndDeleteItems js deleteSingle userDataBackup makeBackupBlobName [] it = (Inr [], [], it)"
| "backupAndDeleteItems js deleteSingle userDataBackup makeBackupBlobName (item # items) it =
     (case backupAndDeleteItem js deleteSingle userDataBackup makeBackupBlobName item it of
        (r1, c1, it1) \<Rightarrow>
          (case backupAndDeleteItems js deleteSingle userDataBackup makeBackupBlobName items it1 of
             (r2, c2, it2) \<Rightarrow>
               ((case r1 of
                   Inl e \<Rightarrow> Inl e
                 | Inr v \<Rightarrow> (case r2 of Inl e \<Rightarrow> Inl e | Inr vs \<Rightarrow> Inr (v # vs))),
                c1 @ c2, it2)))"
| "backupAndDeleteItem js deleteSingle userDataBackup makeBackupBlobName item it =
     (case fst (saveDataToBlob js userDataBackup (makeBackupBlobName item) item) of
        Inl e \<Rightarrow> (Inl e, snd (saveDataToBlob js userDataBackup (makeBackupBlobName item) item), it)
      | Inr _ \<Rightarrow>
          (case fst (mapLeft toDocumentDeleteFailure
                       (fromQueryEither (fst (deleteSingle item)) (snd (deleteSingle item)))) of
             Inl e \<Rightarrow>
               (Inl e,
                snd (saveDataToBlob js userDataBackup (makeBackupBlobName item) item)
                  @ [fst (deleteSingle item)], it)
           | Inr _ \<Rightarrow>
               (case executeRecursiveBackupAndDelete js deleteSingle userDataBackup
                       makeBackupBlobName it of
                  (r, c3, it') \<Rightarrow>
                    ((case r of
                        Inl e \<Rightarrow> Inl e
                      | Inr nextResults \<Rightarrow> Inr (Nested (Item item # nextResults))),
                     snd (saveDataToBlob js userDataBackup (makeBackupBlobName item) item)
                       @ [fst (deleteSingle item)] @ c3,
                     it'))))"
  by pat_completeness auto

text \<open>
  The walk ends because a page is taken off the iterator before any recursive step, and
  no step gives pages back to the iterator.
\<close>

lemma executeNext_pending:
  "length (pending (snd (executeNext it))) \<le> length (pending it)"
  by (simp add: executeNext_def split: list.splits)

lemma executeNext_page_shrinks:
  "liftQuery (fst (executeNext it)) = Inr (Some items) \<Longrightarrow>
   length (pending (snd (executeNext it))) < length (pending it)"
  by (simp add: executeNext_def split: list.splits)

lemma walker_pending_dom:
  "executeRecursiveBackupAndDelete_backupAndDeleteItems_backupAndDeleteItem_dom
     (Inl (js, del, udb, mk, it)) \<Longrightarrow>
   length (pending (snd (snd (executeRecursiveBackupAndDelete js del udb mk it))))
     \<le> length (pending it)"
  "executeRecursiveBackupAndDelete_backupAndDeleteItems_backupAndDeleteItem_dom
     (Inr (Inl (js, del, udb, mk, xs, it2))) \<Longrightarrow>
   length (pending (snd (snd (backupAndDeleteItems js del udb mk xs it2))))
     \<le> length (pending it2)"
  "executeRecursiveBackupAndDelete_backupAndDeleteItems_backupAndDeleteItem_dom
     (Inr (Inr (js, del, udb, mk, x, it3))) \<Longrightarrow>
   length (pending (snd (snd (backupAndDeleteItem js del udb mk x it3))))
     \<le> length (pending it3)"
proof (induct js del udb mk it and js del udb mk xs it2 and js del udb mk x it3
    rule: executeRecursiveBackupAndDelete_backupAndDeleteItems_backupAndDeleteItem.pinduct)
  case (1 js del udb mk it)
  show ?case
    using 1 executeNext_pending [of it]
    by (auto simp: executeRecursiveBackupAndDelete.psimps
        split: sum.splits option.splits prod.splits)
next
  case (2 js del udb mk it)
  then show ?case by (simp add: backupAndDeleteItems.psimps)
next
  case (3 js del udb mk x xs it)
  show ?case
    using 3
    by (fastforce simp: backupAndDeleteItems.psimps split: sum.splits option.splits prod.splits)
next
  case (4 js del udb mk x it)
  then show ?case
    by (auto simp: backupAndDeleteItem.psimps split: sum.splits option.splits prod.splits)
qed

termination executeRecursiveBackupAndDelete
proof (relation "measures [
    (\<lambda>a. case a of
            Inl (js, del, udb, mk, it) \<Rightarrow> length (pending it)
          | Inr (Inl (js, del, udb, mk, xs, it)) \<Rightarrow> length (pending it)
          | Inr (Inr (js, del, udb, mk, x, it)) \<Rightarrow> length (pending it)),
    (\<lambda>a. case a of
            Inl (js, del, udb, mk, it) \<Rightarrow> 0
          | Inr (Inl (js, del, udb, mk, xs, it)) \<Rightarrow> Suc (Suc (length xs))
          | Inr (Inr (js, del, udb, mk, x, it)) \<Rightarrow> Suc 0)]", goal_cases)
  case 1
  then show ?case by simp
next
  case (2 js del udb mk it b x2)
  then show ?case using executeNext_page_shrinks [of it x2] by simp
next
  case (3 js del udb mk x xs it)
  then show ?case by simp
next
  case (4 js del udb mk x xs it xa y xb ya)
  then show ?case
    using walker_pending_dom(3) [of js del udb mk x it]
    by (auto simp: measures_less measures_lesseq dest: sym)
next
  case (5 js del udb mk x it b ba)
  then show ?case by simp
qed

text \<open>
  Names for what the walker does with one item: the call that saves its blob, the outcome
  of its delete, and the calls of a successfully processed item. \<open>processed\<close> lists
  the items held by the value of a walk.
\<close>

definition saveCall :: "('a \<Rightarrow> string) \<Rightarrow> IBlobServiceInfo \<Rightarrow> string \<Rightarrow> 'a \<Rightarrow> call" where
  "saveCall js info blobName d =
     CreateBlockBlobFromText (containerName info) (blobPath (folder info) blobName) (js d)"

definition deleteResult :: "('a \<Rightarrow> call \<times> string promised) \<Rightarrow> 'a \<Rightarrow> DataFailure + string" where
  "deleteResult del x =
     fst (mapLeft toDocumentDeleteFailure (fromQueryEither (fst (del x)) (snd (del x))))"

fun flatten :: "'a nested \<Rightarrow> 'a list" where
  "flatten (Item x) = [x]"
| "flatten (Nested vs) = concat (map flatten vs)"

definition processed :: "'a nested list \<Rightarrow> 'a list" where
  "processed vs = concat (map flatten vs)"


fun is_data_failure :: "ActivityResultFailure \<Rightarrow> bool" where
  "is_data_failure (QueryFailure reason query) = True"
| "is_data_failure (BlobCreationFailure reason) = True"
| "is_data_failure (DocumentDeleteFailure reason) = True"
| "is_data_failure _ = False"

section \<open>The cascade over the documents of a user\<close>

text \<open>
  A version number is printed by the template literal in decimal.
\<close>

definition digit :: "nat \<Rightarrow> char" where
  "digit d = ''0123456789'' ! d"

fun string_of_nat :: "nat \<Rightarrow> string" where
  "string_of_nat n =
     (if n < 10 then [digit n] else string_of_nat (n div 10) @ [digit (n mod 10)])"

definition walk ::
  "(DataFailure + 'a nested list) \<times> call list \<times> 'a IResultIterator
     \<Rightarrow> (DataFailure, 'a nested list) TaskEither" where
  "walk r = (fst r, fst (snd r))"

definition backupAndDeleteProfile ::
  "Models \<Rightarrow> IBlobServiceInfo \<Rightarrow> string \<Rightarrow> (DataFailure, RetrievedProfile nested list) TaskEither" where
  "backupAndDeleteProfile m userDataBackup fiscalCode =
     walk (executeRecursiveBackupAndDelete
       (\<lambda>item. JSON_stringify m (Profile item))
       (\<lambda>item. (DeleteProfileVersion (profile_fiscalCode item) (profile_id item),
                 deleteProfileVersion m (profile_fiscalCode item) (profile_id item)))
       userDataBackup
       (\<lambda>item. ''profile--'' @ string_of_nat (profile_version item) @ ''.json'')
       \<lparr>source = ProfileVersions fiscalCode, pending = findAllProfileVersions m fiscalCode\<rparr>)"

definition backupAndDeleteNotification ::
  "Models \<Rightarrow> IBlobServiceInfo \<Rightarrow> RetrievedNotification
     \<Rightarrow> (DataFailure, RetrievedNotification) TaskEither" where
  "backupAndDeleteNotification m userDataBackup notification =
     map_task (\<lambda>_. notification)
       (sequenceT_seq
          (saveDataToBlob (\<lambda>d. JSON_stringify m (Notification d)) userDataBackup
             (''notification--'' @ notification_id notification @ ''.json'') notification)
          (mapLeft toDocumentDeleteFailure
             (fromQueryEither
                (DeleteNotification (notification_messageId notification) (notification_id notification))
                (deleteNotification m (notification_messageId notification)
                   (notification_id notification)))))"

definition backupAndDeleteNotificationStatus ::
  "Models \<Rightarrow> IBlobServiceInfo \<Rightarrow> RetrievedNotification
     \<Rightarrow> (DataFailure, RetrievedNotificationStatus nested list) TaskEither" where
  "backupAndDeleteNotificationStatus m userDataBackup notification =
     walk (executeRecursiveBackupAndDelete
       (\<lambda>item. JSON_stringify m (NotificationStatus item))
       (\<lambda>item. (DeleteNotificationStatusVersion (notificationStatus_notificationId item)
                   (notificationStatus_id item),
                 deleteNotificationStatusVersion m (notificationStatus_notificationId item)
                   (notificationStatus_id item)))
       userDataBackup
       (\<lambda>item. ''notification-status--'' @ string_of_nat (notificationStatus_version item) @ ''.json'')
       \<lparr>source = NotificationStatusVersions (notification_id notification),
        pending = findAllVersionsByNotificationId m (notification_id notification)\<rparr>)"

definition backupAndDeleteMessage ::
  "Models \<Rightarrow> IBlobServiceInfo \<Rightarrow> RetrievedMessageWithoutContent
     \<Rightarrow> (DataFailure, RetrievedMessageWithoutContent) TaskEither" where
  "backupAndDeleteMessage m userDataBackup message =
     map_task (\<lambda>_. message)
       (sequenceT_seq
          (saveDataToBlob (\<lambda>d. JSON_stringify m (Message d)) userDataBackup
             (''message--'' @ message_id message @ ''.json'') message)
          (mapLeft toDocumentDeleteFailure
             (fromQueryEither
                (DeleteMessage (message_fiscalCode message) (message_id message))
                (deleteMessage m (message_fiscalCode message) (message_id message)))))"

text \<open>
  The content of a message is read first. Any failure of the read is taken as "no
  content"; without content nothing is saved or deleted.
\<close>

definition backupAndDeleteMessageContent ::
  "Models \<Rightarrow> IBlobServiceInfo \<Rightarrow> RetrievedMessageWithoutContent
     \<Rightarrow> (DataFailure, MessageContent option) TaskEither" where
  "backupAndDeleteMessageContent m userDataBackup message =
     foldTaskEither
       (\<lambda>_. taskEither_of None)
       (\<lambda>maybeContent.
          case maybeContent of
            None \<Rightarrow> taskEither_of None
          | Some content \<Rightarrow>
              map_task (\<lambda>_. Some content)
                (sequenceT_seq
                   (saveDataToBlob (\<lambda>d. JSON_stringify m (Content d)) userDataBackup
                      (''messagecontent--'' @ message_id message @ ''.json'') content)
                   (mapLeft toDocumentDeleteFailure
                      (fromQueryEither (DeleteContentFromBlob (message_id message))
                         (deleteContentFromBlob m (message_id message))))))
       (fromQueryEither (GetContentFromBlob (message_id message))
          (getContentFromBlob m (message_id message)))"

definition backupAndDeleteMessageStatus ::
  "Models \<Rightarrow> IBlobServiceInfo \<Rightarrow> RetrievedMessageWithoutContent
     \<Rightarrow> (DataFailure, RetrievedMessageStatus nested list) TaskEither" where
  "backupAndDeleteMessageStatus m userDataBackup message =
     walk (executeRecursiveBackupAndDelete
       (\<lambda>item. JSON_stringify m (MessageStatus item))
       (\<lambda>item. (DeleteMessageStatusVersion (messageStatus_messageId item) (messageStatus_id item),
                 deleteMessageStatusVersion m (messageStatus_messageId item)
                   (messageStatus_id item)))
       userDataBackup
       (\<lambda>item. ''message-status--'' @ string_of_nat (messageStatus_version item) @ ''.json'')
       \<lparr>source = MessageStatusVersions (message_id message),
        pending = findAllMessageStatusVersions m (message_id message)\<rparr>)"

definition backupAndDeleteAllNotificationsData ::
  "Models \<Rightarrow> IBlobServiceInfo \<Rightarrow> RetrievedMessageWithoutContent
     \<Rightarrow> (DataFailure, (RetrievedNotificationStatus nested list \<times> RetrievedNotification) list) TaskEither" where
  "backupAndDeleteAllNotificationsData m userDataBackup message =
     foldTaskEither
       (\<lambda>e. (Inl e, []))
       (\<lambda>notifications.
          array_sequence
            (map (\<lambda>notification.
                    sequenceT_seq
                      (backupAndDeleteNotificationStatus m userDataBackup notification)
                      (backupAndDeleteNotification m userDataBackup notification))
               notifications))
       (mapLeft (\<lambda>msg. toQueryFailure (AnError msg))
          (fromQueryEither (FindNotificationsForMessage (message_id message))
             (findNotificationsForMessage m (message_id message))))"

text \<open>
  For one message: content, status versions and notifications are joined in parallel, and
  the message itself is chained after the join.
\<close>

definition backupAndDeleteMessageChildren ::
  "Models \<Rightarrow> IBlobServiceInfo \<Rightarrow> RetrievedMessageWithoutContent
     \<Rightarrow> (DataFailure,
          MessageContent option \<times> RetrievedMessageStatus nested list
            \<times> (RetrievedNotificationStatus nested list \<times> RetrievedNotification) list) TaskEither" where
  "backupAndDeleteMessageChildren m userDataBackup message =
     sequenceT_par
       (backupAndDeleteMessageContent m userDataBackup message)
       (backupAndDeleteMessageStatus m userDataBackup message)
       (backupAndDeleteAllNotificationsData m userDataBackup message)"

definition backupAndDeleteMessageData ::
  "Models \<Rightarrow> IBlobServiceInfo \<Rightarrow> RetrievedMessageWithoutContent
     \<Rightarrow> (DataFailure, RetrievedMessageWithoutContent) TaskEither" where
  "backupAndDeleteMessageData m userDataBackup message =
     chain (backupAndDeleteMessageChildren m userDataBackup message)
       (\<lambda>_. backupAndDeleteMessage m userDataBackup message)"

definition backupAndDeleteAllMessagesData ::
  "Models \<Rightarrow> IBlobServiceInfo \<Rightarrow> string
     \<Rightarrow> (DataFailure, RetrievedMessageWithoutContent list) TaskEither" where
  "backupAndDeleteAllMessagesData m userDataBackup fiscalCode =
     foldTaskEither
       (\<lambda>e. (Inl e, []))
       (\<lambda>messages. array_sequence (map (backupAndDeleteMessageData m userDataBackup) messages))
       (mapLeft (\<lambda>msg. toQueryFailure (AnError msg))
          (fromQueryEither (FindMessages fiscalCode) (findMessages m fiscalCode)))"

definition backupAndDeleteAllUserData ::
  "Models \<Rightarrow> IBlobServiceInfo \<Rightarrow> string \<Rightarrow> (DataFailure, RetrievedProfile nested list) TaskEither" where
  "backupAndDeleteAllUserData m userDataBackup fiscalCode =
     chain (backupAndDeleteAllMessagesData m userDataBackup fiscalCode)
       (\<lambda>_. backupAndDeleteProfile m userDataBackup fiscalCode)"

section \<open>The activity handler\<close>

record ActivityInput =
  backupFolder :: string
  fiscalCode :: string

definition logPrefix :: string where
  "logPrefix = ''DeleteUserDataActivity''"

fun logFailure :: "ActivityResultFailure \<Rightarrow> call" where
  "logFailure (InvalidInputFailure reason) =
     LogError (logPrefix @ ''|Error decoding input|ERROR='' @ reason)"
| "logFailure (QueryFailure reason query) =
     LogError (logPrefix @ ''|Error '' @ (case query of None \<Rightarrow> ''undefined'' | Some q \<Rightarrow> q)
       @ '' query error|ERROR='' @ reason)"
| "logFailure (BlobCreationFailure reason) =
     LogError (logPrefix @ ''|Error saving blob|ERROR='' @ reason)"
| "logFailure UserNotFound = LogError (logPrefix @ ''|Error user not found|ERROR='')"
| "logFailure (DocumentDeleteFailure reason) =
     LogError (logPrefix @ ''|Error deleting data|ERROR='' @ reason)"

text \<open>
  The handler decodes its input (\<open>decode\<close> stands for the io-ts codec of the input,
  its left value for the readable report of the errors), runs the cascade with the backup
  folder of the input, logs a failure and unfolds the value.
\<close>

definition createDeleteUserDataActivityHandler ::
  "('u \<Rightarrow> string + ActivityInput) \<Rightarrow> Models \<Rightarrow> BlobService \<Rightarrow> string \<Rightarrow> 'u
     \<Rightarrow> ActivityResult \<times> call list" where
  "createDeleteUserDataActivityHandler decode m userDataBackupBlobService
       userDataBackupContainerName input =
     (let t = chain
                (case decode input of
                   Inl reason \<Rightarrow> (Inl (InvalidInputFailure reason), [])
                 | Inr i \<Rightarrow> (Inr i, []))
                (\<lambda>i. backupAndDeleteAllUserData m
                        \<lparr>blobService = userDataBackupBlobService,
                         containerName = userDataBackupContainerName,
                         folder = Some (backupFolder i)\<rparr>
                        (fiscalCode i))
      in case fst t of
           Inl failure \<Rightarrow> (ActivityResultFailure failure, snd t @ [logFailure failure])
         | Inr _ \<Rightarrow> (ActivityResultSuccess, snd t))"

section \<open>The calls of the cascade\<close>

text \<open>
  The names the cascade gives to the backup blobs, by document: the blob of a versioned
  document (profile, message status, notification status) is named after its version, the
  blob of a message or notification after its id, the blob of a message content after the
  id of its message (\<open>owner\<close>). \<open>artifact\<close> is the call that writes such a blob.
  \<open>child_call\<close> collects the calls made for the children of a message;
  \<open>is_message_call\<close> and \<open>is_profile_call\<close> recognise the delete of a message
  or profile version, the blobs named \<^verbatim>\<open>message--\<close> or \<^verbatim>\<open>profile--\<close>, and the
  queries for profile versions.
\<close>

fun backupBlobName :: "string \<Rightarrow> document \<Rightarrow> string" where
  "backupBlobName owner (Profile d) = ''profile--'' @ string_of_nat (profile_version d) @ ''.json''"
| "backupBlobName owner (Notification d) = ''notification--'' @ notification_id d @ ''.json''"
| "backupBlobName owner (NotificationStatus d) =
     ''notification-status--'' @ string_of_nat (notificationStatus_version d) @ ''.json''"
| "backupBlobName owner (Message d) = ''message--'' @ message_id d @ ''.json''"
| "backupBlobName owner (MessageStatus d) =
     ''message-status--'' @ string_of_nat (messageStatus_version d) @ ''.json''"
| "backupBlobName owner (Content d) = ''messagecontent--'' @ owner @ ''.json''"

definition artifact :: "Models \<Rightarrow> IBlobServiceInfo \<Rightarrow> string \<Rightarrow> document \<Rightarrow> call" where
  "artifact m udb owner doc =
     CreateBlockBlobFromText (containerName udb)
       (blobPath (folder udb) (backupBlobName owner doc)) (JSON_stringify m doc)"

inductive child_call :: "Models \<Rightarrow> IBlobServiceInfo \<Rightarrow> call \<Rightarrow> bool" for m udb where
  get_content: "child_call m udb (GetContentFromBlob i)"
| save_content: "child_call m udb (artifact m udb owner (Content d))"
| delete_content: "child_call m udb (DeleteContentFromBlob i)"
| next_status: "child_call m udb (ExecuteNext (MessageStatusVersions i))"
| save_status: "child_call m udb (artifact m udb owner (MessageStatus s))"
| delete_status: "child_call m udb (DeleteMessageStatusVersion i j)"
| find_notifications: "child_call m udb (FindNotificationsForMessage i)"
| next_notification_status: "child_call m udb (ExecuteNext (NotificationStatusVersions i))"
| save_notification_status: "child_call m udb (artifact m udb owner (NotificationStatus t))"
| delete_notification_status: "child_call m udb (DeleteNotificationStatusVersion i j)"
| save_notification: "child_call m udb (artifact m udb owner (Notification n))"
| delete_notification: "child_call m udb (DeleteNotification i j)"

fun is_message_call :: "IBlobServiceInfo \<Rightarrow> call \<Rightarrow> bool" where
  "is_message_call udb (DeleteMessage fc i) = True"
| "is_message_call udb (CreateBlockBlobFromText cn p t) = prefix (blobPath (folder udb) ''message--'') p"
| "is_message_call udb _ = False"

fun is_profile_call :: "IBlobServiceInfo \<Rightarrow> call \<Rightarrow> bool" where
  "is_profile_call udb (ExecuteNext (ProfileVersions fc)) = True"
| "is_profile_call udb (DeleteProfileVersion fc i) = True"
| "is_profile_call udb (CreateBlockBlobFromText cn p t) = prefix (blobPath (folder udb) ''profile--'') p"
| "is_profile_call udb _ = False"

section \<open>A small user\<close>

text \<open>
  A user with one profile in two versions and one message, which has no content, one
  status version and no notification. Every call succeeds.
\<close>

definition demo_profile0 :: RetrievedProfile where
  "demo_profile0 = \<lparr>profile_fiscalCode = ''AAABBB'', profile_id = ''AAABBB-0'', profile_version = 0\<rparr>"

definition demo_profile1 :: RetrievedProfile where
  "demo_profile1 = \<lparr>profile_fiscalCode = ''AAABBB'', profile_id = ''AAABBB-1'', profile_version = 1\<rparr>"

definition demo_message :: RetrievedMessageWithoutContent where
  "demo_message = \<lparr>message_id = ''M1'', message_fiscalCode = ''AAABBB''\<rparr>"

definition demo_status :: RetrievedMessageStatus where
  "demo_status = \<lparr>messageStatus_messageId = ''M1'', messageStatus_id = ''M1-0'',
                  messageStatus_version = 0\<rparr>"

fun demo_json :: "document \<Rightarrow> string" where
  "demo_json (Profile d) = ''profile '' @ profile_id d"
| "demo_json (Notification d) = ''notification '' @ notification_id d"
| "demo_json (NotificationStatus d) = ''notification status '' @ notificationStatus_id d"
| "demo_json (Message d) = ''message '' @ message_id d"
| "demo_json (MessageStatus d) = ''message status '' @ messageStatus_id d"
| "demo_json (Content d) = ''content''"

definition demo_models :: Models where
  "demo_models =
     \<lparr>JSON_stringify = demo_json,
      deleteProfileVersion = (\<lambda>_ _. Resolved (Inr ''done'')),
      findAllProfileVersions = (\<lambda>_. [Resolved (Inr (Some [demo_profile0, demo_profile1]))]),
      deleteNotification = (\<lambda>_ _. Resolved (Inr ''done'')),
      findNotificationsForMessage = (\<lambda>_. Resolved (Inr [])),
      deleteNotificationStatusVersion = (\<lambda>_ _. Resolved (Inr ''done'')),
      findAllVersionsByNotificationId = (\<lambda>_. []),
      deleteMessage = (\<lambda>_ _. Resolved (Inr ''done'')),
      findMessages = (\<lambda>_. Resolved (Inr [demo_message])),
      getContentFromBlob = (\<lambda>_. Resolved (Inl (AnError ''blob not found''))),
      deleteContentFromBlob = (\<lambda>_. Resolved (Inr True)),
      deleteMessageStatusVersion = (\<lambda>_ _. Resolved (Inr ''done'')),
      findAllMessageStatusVersions = (\<lambda>_. [Resolved (Inr (Some [demo_status]))])\<rparr>"

definition demo_backup :: IBlobServiceInfo where
  "demo_backup = \<lparr>blobService = (\<lambda>_ _ _. None), containerName = ''backups'',
                  folder = Some ''AAABBB-req''\<rparr>"





text \<open>
  Two failures for the small user: the delete of the first profile version fails, and the
  backup store refuses the blob of the second profile version.
\<close>

definition failing_models :: Models where
  "failing_models = demo_models\<lparr>deleteProfileVersion :=
     (\<lambda>fc i. if i = ''AAABBB-0'' then Resolved (Inl (AQueryError ''conflict''))
              else Resolved (Inr ''done''))\<rparr>"

definition failing_backup :: IBlobServiceInfo where
  "failing_backup = demo_backup\<lparr>blobService :=
     (\<lambda>cn path text. if text = ''profile AAABBB-1'' then Some ''disk full'' else None)\<rparr>"

definition demo_input :: ActivityInput where
  "demo_input = \<lparr>backupFolder = ''AAABBB-req'', fiscalCode = ''AAABBB''\<rparr>"

text \<open>
  A user whose message status query is rejected, and a user with no document left.
\<close>

definition broken_status_models :: Models where
  "broken_status_models = demo_models\<lparr>findAllMessageStatusVersions :=
     (\<lambda>_. [Rejected ''request timeout''])\<rparr>"

definition empty_models :: Models where
  "empty_models = demo_models\<lparr>findMessages := (\<lambda>_. Resolved (Inr [])),
                              findAllProfileVersions := (\<lambda>_. [])\<rparr>"

section \<open>The workflow state machine\<close>

text \<open>
  The handler that drives one user data processing job through its statuses
  (\<^verbatim>\<open>getHandler\<close>) is known through its test, \<^verbatim>\<open>handler(DELAY)\<close>, only; the
  definitions of this section follow section 4.7 of the specification. The test gives the
  name of the status update step, and decodes the outcome for a job that is not
  processable as an invalid input failure.
\<close>

text \<open>Modelled from the spec: the statuses of a workflow job.\<close>

datatype UserDataProcessingStatus = PENDING | WIP | CLOSED | FAILED

text \<open>Modelled from the spec: the workflow job, with its id, user, status and payload.\<close>

record WorkflowJob =
  job_id :: string
  job_userKey :: string
  job_status :: UserDataProcessingStatus
  job_payload :: string

text \<open>
  Modelled from the spec: the outcome of the workflow: success, "not processable", the
  activity failure report with its step name, reason and extra payload, and the fatal
  orchestration error.
\<close>

datatype WorkflowOutcome =
    OrchestratorSuccess
  | NotProcessable
  | ActivityFailure string string "UserDataProcessingStatus option"
  | FatalOrchestrationError string

text \<open>
  Modelled from the spec: the calls of the workflow, persisting a status for a job and
  running an attempt of a business step.
\<close>

datatype workflow_call =
    PersistStatus WorkflowJob UserDataProcessingStatus
  | RunStep string WorkflowJob nat

text \<open>Modelled from the spec: the retry policy, a fixed delay and a bound on the attempts.\<close>

record RetryPolicy =
  delay :: nat
  maxAttempts :: nat

text \<open>
  Modelled from the spec: the collaborators of the workflow, each answering with the reason
  of its failure, if any.
\<close>

record WorkflowEnv =
  persistStatus :: "WorkflowJob \<Rightarrow> UserDataProcessingStatus \<Rightarrow> string option"
  runStep :: "string \<Rightarrow> WorkflowJob \<Rightarrow> nat \<Rightarrow> string option"

text \<open>
  Modelled from the spec: the name under which a failed status update is reported (the
  name is the one the test expects).
\<close>

definition setStatusStep :: string where
  "setStatusStep = ''setUserDataProcessingStatusActivity''"

text \<open>
  Modelled from the spec: the acceptance predicate, "only jobs with status PENDING or
  FAILED are (re)started".
\<close>

definition processable :: "WorkflowJob \<Rightarrow> bool" where
  "processable job = (job_status job = PENDING \<or> job_status job = FAILED)"

text \<open>
  Modelled from the spec: the retry policy around a business step, a bounded number of
  attempts (the delay between attempts is real time and left out); a step that exhausts
  its attempts fails with the reason of its last attempt.
\<close>

fun attempt_step ::
  "WorkflowEnv \<Rightarrow> WorkflowJob \<Rightarrow> string \<Rightarrow> nat \<Rightarrow> nat \<Rightarrow> (string + unit) \<times> workflow_call list" where
  "attempt_step env job name k 0 = (Inl ''no attempt left'', [])"
| "attempt_step env job name k (Suc n) =
     (case runStep env name job k of
        None \<Rightarrow> (Inr (), [RunStep name job k])
      | Some why \<Rightarrow>
          (if n = 0 then (Inl why, [RunStep name job k])
           else (fst (attempt_step env job name (Suc k) n),
                 RunStep name job k # snd (attempt_step env job name (Suc k) n))))"

text \<open>
  Modelled from the spec: the ordered list of business steps, run until the first step
  that exhausts its attempts, which is reported with its name.
\<close>

fun run_steps ::
  "WorkflowEnv \<Rightarrow> RetryPolicy \<Rightarrow> WorkflowJob \<Rightarrow> string list
     \<Rightarrow> (string \<times> string + unit) \<times> workflow_call list" where
  "run_steps env policy job [] = (Inr (), [])"
| "run_steps env policy job (name # names) =
     (case fst (attempt_step env job name 0 (maxAttempts policy)) of
        Inl why \<Rightarrow> (Inl (name, why), snd (attempt_step env job name 0 (maxAttempts policy)))
      | Inr _ \<Rightarrow>
          (fst (run_steps env policy job names),
           snd (attempt_step env job name 0 (maxAttempts policy))
             @ snd (run_steps env policy job names)))"

text \<open>
  Modelled from the spec: step (d), the transition to FAILED with the failing step and the
  extra payload; when this persistence fails as well the workflow ends with the fatal
  orchestration error.
\<close>

definition fail_job ::
  "WorkflowEnv \<Rightarrow> WorkflowJob \<Rightarrow> string \<Rightarrow> string \<Rightarrow> UserDataProcessingStatus option
     \<Rightarrow> workflow_call list \<Rightarrow> WorkflowOutcome \<times> workflow_call list" where
  "fail_job env job name why extra calls =
     (case persistStatus env job FAILED of
        None \<Rightarrow> (ActivityFailure name why extra, calls @ [PersistStatus job FAILED])
      | Some err \<Rightarrow> (FatalOrchestrationError err, calls @ [PersistStatus job FAILED]))"

text \<open>
  Modelled from the spec: the transition protocol. A job that is not processable is skipped
  without any call; (a) the status WIP is persisted; (b) the business steps run on the
  job in progress; (c) the status CLOSED is persisted and the workflow succeeds; (d) the
  failure of (a), of a step or of the persistence in (c) is handled by the transition to
  FAILED, with the status being set as extra payload for a failed status update.
\<close>

definition workflow ::
  "WorkflowEnv \<Rightarrow> RetryPolicy \<Rightarrow> string list \<Rightarrow> WorkflowJob
     \<Rightarrow> WorkflowOutcome \<times> workflow_call list" where
  "workflow env policy steps job =
     (if \<not> processable job then (NotProcessable, [])
      else
        case persistStatus env job WIP of
          Some why \<Rightarrow> fail_job env job setStatusStep why (Some WIP) [PersistStatus job WIP]
        | None \<Rightarrow>
            (let wip = job\<lparr>job_status := WIP\<rparr>;
                 ran = run_steps env policy wip steps
             in case fst ran of
                  Inl (name, why) \<Rightarrow>
                    fail_job env wip name why None (PersistStatus job WIP # snd ran)
                | Inr _ \<Rightarrow>
                    (case persistStatus env wip CLOSED of
                       Some why \<Rightarrow>
                         fail_job env wip setStatusStep why (Some CLOSED)
                           (PersistStatus job WIP # snd ran @ [PersistStatus wip CLOSED])
                     | None \<Rightarrow>
                         (OrchestratorSuccess,
                          PersistStatus job WIP # snd ran @ [PersistStatus wip CLOSED]))))"

text \<open>
  The calls that persist a status, and a business step that succeeds within the attempts
  of the policy.
\<close>

fun is_persist :: "workflow_call \<Rightarrow> bool" where
  "is_persist (PersistStatus job s) = True"
| "is_persist (RunStep name job k) = False"

definition step_succeeds :: "WorkflowEnv \<Rightarrow> RetryPolicy \<Rightarrow> WorkflowJob \<Rightarrow> string \<Rightarrow> bool" where
  "step_succeeds env policy job name = (\<exists>k<maxAttempts policy. runStep env name job k = None)"

text \<open>
  A pending job with the two business steps of the test, three attempts per step, and
  collaborators: in \<open>demo_env\<close> the first attempt of the extraction fails and all else
  succeeds, the others fail to persist CLOSED, fail to persist anything, fail to send the
  message at every attempt, and fail to persist WIP.
\<close>

definition demo_job :: WorkflowJob where
  "demo_job = \<lparr>job_id = ''J1'', job_userKey = ''AAABBB'', job_status = PENDING,
               job_payload = ''download''\<rparr>"

definition demo_steps :: "string list" where
  "demo_steps = [''extractUserDataActivity'', ''sendUserDataDownloadMessageActivity'']"

definition demo_policy :: RetryPolicy where
  "demo_policy = \<lparr>delay = 5000, maxAttempts = 3\<rparr>"

definition demo_env :: WorkflowEnv where
  "demo_env = \<lparr>persistStatus = (\<lambda>_ _. None),
               runStep = (\<lambda>name _ k. if name = ''extractUserDataActivity'' \<and> k = 0
                                      then Some ''storage busy'' else None)\<rparr>"

definition closing_fails_env :: WorkflowEnv where
  "closing_fails_env =
     demo_env\<lparr>persistStatus := (\<lambda>_ s. if s = CLOSED then Some ''conflict'' else None)\<rparr>"

definition store_down_env :: WorkflowEnv where
  "store_down_env = demo_env\<lparr>persistStatus := (\<lambda>_ s. Some ''store down'')\<rparr>"

definition mail_fails_env :: WorkflowEnv where
  "mail_fails_env =
     demo_env\<lparr>runStep := (\<lambda>name _ k. if name = ''sendUserDataDownloadMessageActivity''
                                     then Some ''no mail'' else None)\<rparr>"

definition wip_fails_env :: WorkflowEnv where
  "wip_fails_env =
     demo_env\<lparr>persistStatus := (\<lambda>_ s. if s = WIP then Some ''conflict'' else None)\<rparr>"

section \<open>Properties of the tasks\<close>

lemmas task_defs = taskEither_of_def map_task_def mapLeft_def foldTaskEither_def chain_def
  ap_seq_def ap_par_def sequenceT_seq_def sequenceT_par_def

declare executeRecursiveBackupAndDelete.simps [simp del]
declare backupAndDeleteItem.simps [simp del]
declare backupAndDeleteItems.simps(2) [simp del]
declare string_of_nat.simps [simp del]

lemmas demo_defs = demo_models_def demo_backup_def demo_message_def demo_status_def
  demo_profile0_def demo_profile1_def

lemmas scenario_defs = failing_models_def failing_backup_def demo_input_def digit_def
  string_of_nat.simps broken_status_models_def empty_models_def


lemmas run_defs = executeRecursiveBackupAndDelete.simps backupAndDeleteItem.simps
  backupAndDeleteItems.simps
  executeNext_def saveDataToBlob_def fromQueryEither_def blobPath_def walk_def
  toDocumentDeleteFailure_def array_sequence_def
  backupAndDeleteProfile_def backupAndDeleteNotification_def
  backupAndDeleteNotificationStatus_def backupAndDeleteMessage_def
  backupAndDeleteMessageContent_def backupAndDeleteMessageStatus_def
  backupAndDeleteAllNotificationsData_def backupAndDeleteMessageChildren_def
  backupAndDeleteMessageData_def backupAndDeleteAllMessagesData_def
  backupAndDeleteAllUserData_def

section \<open>Properties of the walker\<close>

text \<open>
  The equations of the walker by the outcome of each step, and an induction rule that
  follows them.
\<close>

lemma snd_saveDataToBlob: "snd (saveDataToBlob js udb name d) = [saveCall js udb name d]"
  by (simp add: saveDataToBlob_def saveCall_def)

lemma source_executeNext: "source (snd (executeNext it)) = source it"
  by (simp add: executeNext_def split: list.splits)

lemma walker_failed:
  "liftQuery (fst (executeNext it)) = Inl e \<Longrightarrow>
   executeRecursiveBackupAndDelete js del udb mk it
     = (Inl e, [ExecuteNext (source it)], snd (executeNext it))"
  by (simp add: executeRecursiveBackupAndDelete.simps)

lemma walker_no_page:
  "liftQuery (fst (executeNext it)) = Inr None \<Longrightarrow>
   executeRecursiveBackupAndDelete js del udb mk it
     = (Inr [], [ExecuteNext (source it)], snd (executeNext it))"
  by (simp add: executeRecursiveBackupAndDelete.simps)

lemma walker_page:
  assumes "liftQuery (fst (executeNext it)) = Inr (Some items)"
  shows "executeRecursiveBackupAndDelete js del udb mk it
     = (fst (backupAndDeleteItems js del udb mk items (snd (executeNext it))),
        ExecuteNext (source it)
          # fst (snd (backupAndDeleteItems js del udb mk items (snd (executeNext it)))),
        snd (snd (backupAndDeleteItems js del udb mk items (snd (executeNext it)))))"
  using assms by (simp add: executeRecursiveBackupAndDelete.simps split: prod.splits)

lemma items_Cons:
  "backupAndDeleteItems js del udb mk (x # xs) it
     = ((case fst (backupAndDeleteItem js del udb mk x it) of
           Inl e \<Rightarrow> Inl e
         | Inr v \<Rightarrow>
             (case fst (backupAndDeleteItems js del udb mk xs
                          (snd (snd (backupAndDeleteItem js del udb mk x it)))) of
                Inl e \<Rightarrow> Inl e
              | Inr vs \<Rightarrow> Inr (v # vs))),
        fst (snd (backupAndDeleteItem js del udb mk x it))
          @ fst (snd (backupAndDeleteItems js del udb mk xs
                        (snd (snd (backupAndDeleteItem js del udb mk x it))))),
        snd (snd (backupAndDeleteItems js del udb mk xs
                    (snd (snd (backupAndDeleteItem js del udb mk x it))))))"
  by (simp add: backupAndDeleteItems.simps case_prod_beta)

lemma item_save_failed:
  "fst (saveDataToBlob js udb (mk x) x) = Inl e \<Longrightarrow>
   backupAndDeleteItem js del udb mk x it = (Inl e, [saveCall js udb (mk x) x], it)"
  by (simp add: backupAndDeleteItem.simps snd_saveDataToBlob)

lemma item_delete_failed:
  "fst (saveDataToBlob js udb (mk x) x) = Inr d \<Longrightarrow> deleteResult del x = Inl e \<Longrightarrow>
   backupAndDeleteItem js del udb mk x it
     = (Inl e, [saveCall js udb (mk x) x, fst (del x)], it)"
  by (simp add: backupAndDeleteItem.simps snd_saveDataToBlob deleteResult_def)

lemma item_recursive_step:
  "fst (saveDataToBlob js udb (mk x) x) = Inr d \<Longrightarrow> deleteResult del x = Inr s \<Longrightarrow>
   backupAndDeleteItem js del udb mk x it
     = ((case fst (executeRecursiveBackupAndDelete js del udb mk it) of
           Inl e \<Rightarrow> Inl e
         | Inr nextResults \<Rightarrow> Inr (Nested (Item x # nextResults))),
        saveCall js udb (mk x) x # fst (del x)
          # fst (snd (executeRecursiveBackupAndDelete js del udb mk it)),
        snd (snd (executeRecursiveBackupAndDelete js del udb mk it)))"
  by (simp add: backupAndDeleteItem.simps snd_saveDataToBlob deleteResult_def split: prod.splits)

lemma walker_induct [case_names walk nil cons item]:
  assumes walk: "\<And>js del udb mk it.
        (\<And>items. liftQuery (fst (executeNext it)) = Inr (Some items)
           \<Longrightarrow> Q js del udb mk items (snd (executeNext it))) \<Longrightarrow> P js del udb mk it"
    and nil: "\<And>js del udb mk it. Q js del udb mk [] it"
    and cons: "\<And>js del udb mk x xs it. R js del udb mk x it
        \<Longrightarrow> Q js del udb mk xs (snd (snd (backupAndDeleteItem js del udb mk x it)))
        \<Longrightarrow> Q js del udb mk (x # xs) it"
    and item: "\<And>js del udb mk x it.
        (\<And>d s. fst (saveDataToBlob js udb (mk x) x) = Inr d
           \<Longrightarrow> deleteResult del x = Inr s \<Longrightarrow> P js del udb mk it) \<Longrightarrow> R js del udb mk x it"
  shows "P js del udb mk (it :: 'a IResultIterator)"
    and "Q js del udb mk xs it2"
    and "R js del udb mk x it3"
proof (induct js del udb mk it and js del udb mk xs it2 and js del udb mk x it3
    rule: executeRecursiveBackupAndDelete_backupAndDeleteItems_backupAndDeleteItem.induct)
  case (1 js del udb mk it)
  then show ?case using walk by blast
next
  case (2 js del udb mk it)
  then show ?case using nil by blast
next
  case (3 js del udb mk x xs it)
  from 3(2) [OF prod.collapse prod.collapse] 3(1)
  show ?case using cons by blast
next
  case (4 js del udb mk x it)
  then show ?case using item unfolding deleteResult_def by blast
qed

lemma walker_source:
  "source (snd (snd (executeRecursiveBackupAndDelete js del udb mk it))) = source it"
  "source (snd (snd (backupAndDeleteItems js del udb mk xs it2))) = source it2"
  "source (snd (snd (backupAndDeleteItem js del udb mk x it3))) = source it3"
proof (induct js del udb mk it and js del udb mk xs it2 and js del udb mk x it3
    rule: walker_induct)
  case (walk js del udb mk it)
  show ?case
  proof (cases "liftQuery (fst (executeNext it))")
    case (Inl e)
    then show ?thesis by (simp add: walker_failed source_executeNext)
  next
    case (Inr page)
    then show ?thesis using walk
      by (cases page) (simp_all add: walker_no_page walker_page source_executeNext)
  qed
next
  case (nil js del udb mk it)
  show ?case by simp
next
  case (cons js del udb mk x xs it)
  then show ?case by (simp add: items_Cons del: backupAndDeleteItems.simps)
next
  case (item js del udb mk x it)
  show ?case
  proof (cases "fst (saveDataToBlob js udb (mk x) x)")
    case (Inl e)
    then show ?thesis by (simp add: item_save_failed)
  next
    case (Inr d)
    then show ?thesis using item
      by (cases "deleteResult del x") (simp_all add: item_delete_failed item_recursive_step)
  qed
qed

lemma pending_executeNext: "set (pending (snd (executeNext it))) \<subseteq> set (pending it)"
  by (auto simp: executeNext_def split: list.splits)

lemma walker_pending:
  "set (pending (snd (snd (executeRecursiveBackupAndDelete js del udb mk it)))) \<subseteq> set (pending it)"
  "set (pending (snd (snd (backupAndDeleteItems js del udb mk xs it2)))) \<subseteq> set (pending it2)"
  "set (pending (snd (snd (backupAndDeleteItem js del udb mk x it3)))) \<subseteq> set (pending it3)"
proof (induct js del udb mk it and js del udb mk xs it2 and js del udb mk x it3
    rule: walker_induct)
  case (walk js del udb mk it)
  show ?case
  proof (cases "liftQuery (fst (executeNext it))")
    case (Inl e)
    then show ?thesis by (simp add: walker_failed pending_executeNext)
  next
    case (Inr page)
    show ?thesis
    proof (cases page)
      case None
      with Inr show ?thesis by (simp add: walker_no_page pending_executeNext)
    next
      case (Some items)
      with Inr walk [of items] pending_executeNext [of it] show ?thesis
        by (auto simp: walker_page)
    qed
  qed
next
  case (nil js del udb mk it)
  show ?case by simp
next
  case (cons js del udb mk x xs it)
  then show ?case by (auto simp: items_Cons)
next
  case (item js del udb mk x it)
  show ?case
  proof (cases "fst (saveDataToBlob js udb (mk x) x)")
    case (Inl e)
    then show ?thesis by (simp add: item_save_failed)
  next
    case (Inr d)
    then show ?thesis using item
      by (cases "deleteResult del x") (simp_all add: item_delete_failed item_recursive_step)
  qed
qed

lemma walker_calls:
  "c \<in> set (fst (snd (executeRecursiveBackupAndDelete js del udb mk it))) \<Longrightarrow>
     c = ExecuteNext (source it) \<or> (\<exists>x. c = saveCall js udb (mk x) x) \<or> (\<exists>x. c = fst (del x))"
  "c \<in> set (fst (snd (backupAndDeleteItems js del udb mk xs it2))) \<Longrightarrow>
     c = ExecuteNext (source it2) \<or> (\<exists>x. c = saveCall js udb (mk x) x) \<or> (\<exists>x. c = fst (del x))"
  "c \<in> set (fst (snd (backupAndDeleteItem js del udb mk x it3))) \<Longrightarrow>
     c = ExecuteNext (source it3) \<or> (\<exists>x. c = saveCall js udb (mk x) x) \<or> (\<exists>x. c = fst (del x))"
proof (induct js del udb mk it and js del udb mk xs it2 and js del udb mk x it3
    rule: walker_induct)
  case (walk js del udb mk it)
  show ?case
  proof (cases "liftQuery (fst (executeNext it))")
    case (Inl e)
    then show ?thesis using walk(2) by (simp add: walker_failed)
  next
    case (Inr page)
    show ?thesis
    proof (cases page)
      case None
      with Inr walk(2) show ?thesis by (simp add: walker_no_page)
    next
      case (Some items)
      with Inr walk(1) [of items] walk(2) show ?thesis
        by (auto simp: walker_page source_executeNext)
    qed
  qed
next
  case (nil js del udb mk it)
  then show ?case by simp
next
  case (cons js del udb mk x xs it)
  then show ?case by (auto simp: items_Cons walker_source)
next
  case (item js del udb mk x it)
  show ?case
  proof (cases "fst (saveDataToBlob js udb (mk x) x)")
    case (Inl e)
    then show ?thesis using item(2) by (auto simp: item_save_failed)
  next
    case (Inr d)
    show ?thesis
    proof (cases "deleteResult del x")
      case (Inl e)
      with Inr item(2) show ?thesis by (auto simp: item_delete_failed)
    next
      case r: (Inr s)
      with Inr item(1) [of d s] item(2) show ?thesis
        by (auto simp: item_recursive_step)
    qed
  qed
qed



lemma flatten_Nested: "flatten (Nested vs) = processed vs"
  by (simp add: processed_def)



lemma save_failure:
  "fst (saveDataToBlob js udb name d) = Inl e \<Longrightarrow> \<exists>msg. e = BlobCreationFailure msg"
  by (auto simp: saveDataToBlob_def split: option.splits)


lemma delete_failure:
  "deleteResult del x = Inl e \<Longrightarrow> \<exists>msg. e = DocumentDeleteFailure msg"
  by (auto simp: deleteResult_def mapLeft_def fromQueryEither_def toDocumentDeleteFailure_def
      split: promised.splits sum.splits query_error.splits)

lemma query_failure:
  assumes "liftQuery p = Inl e"
  shows "\<exists>reason. e = QueryFailure reason None"
proof (cases p rule: liftQuery.cases)
  case (1 m)
  with assms show ?thesis by auto
next
  case (2 q)
  with assms show ?thesis by (cases q) auto
next
  case (3 r)
  with assms show ?thesis by simp
qed

lemma walker_failure_kind:
  "fst (executeRecursiveBackupAndDelete js del udb mk it) = Inl e \<Longrightarrow> is_data_failure e"
  "fst (backupAndDeleteItems js del udb mk xs it2) = Inl e \<Longrightarrow> is_data_failure e"
  "fst (backupAndDeleteItem js del udb mk x it3) = Inl e \<Longrightarrow> is_data_failure e"
proof (induct js del udb mk it and js del udb mk xs it2 and js del udb mk x it3
    rule: walker_induct)
  case (walk js del udb mk it)
  show ?case
  proof (cases "liftQuery (fst (executeNext it))")
    case (Inl e')
    then show ?thesis using walk(2) query_failure [OF Inl] by (auto simp: walker_failed)
  next
    case (Inr page)
    show ?thesis
    proof (cases page)
      case None
      with Inr walk(2) show ?thesis by (simp add: walker_no_page)
    next
      case (Some items)
      with Inr walk(1) [of items] walk(2) show ?thesis
        by (simp add: walker_page)
    qed
  qed
next
  case (nil js del udb mk it)
  then show ?case by simp
next
  case (cons js del udb mk x xs it)
  then show ?case by (auto simp: items_Cons split: sum.splits)
next
  case (item js del udb mk x it)
  show ?case
  proof (cases "fst (saveDataToBlob js udb (mk x) x)")
    case (Inl e')
    then show ?thesis using item(2) save_failure [OF Inl] by (auto simp: item_save_failed)
  next
    case (Inr d)
    show ?thesis
    proof (cases "deleteResult del x")
      case (Inl e')
      with Inr item(2) delete_failure [OF Inl] show ?thesis by (auto simp: item_delete_failed)
    next
      case r: (Inr s)
      with Inr item(1) [of d s] item(2) show ?thesis
        by (auto simp: item_recursive_step split: sum.splits)
    qed
  qed
qed










section \<open>One recursive step for every record\<close>




section \<open>A failed backup\<close>





section \<open>Properties of the cascade\<close>

lemma blobPath_append: "blobPath fo (a @ b) = blobPath fo a @ b"
  by (simp add: blobPath_def split: option.splits)

lemma blobPath_prefix: "prefix (blobPath fo a) (blobPath fo b) = prefix a b"
  by (simp add: blobPath_def split: option.splits)

lemma fst_array_sequence_aux:
  "fst (foldl (\<lambda>fas fa. ap_par (map_task (\<lambda>as a. as @ [a]) fas) fa) acc ts) = Inl e \<Longrightarrow>
   fst acc = Inl e \<or> (\<exists>t\<in>set ts. fst t = Inl e)"
proof (induction ts arbitrary: acc)
  case Nil
  then show ?case by simp
next
  case (Cons t ts)
  from Cons.IH [OF Cons.prems [simplified]] show ?case
    by (auto simp: ap_par_def map_task_def split: sum.splits)
qed

lemma snd_array_sequence_aux:
  "snd (foldl (\<lambda>fas fa. ap_par (map_task (\<lambda>as a. as @ [a]) fas) fa) acc ts)
     = snd acc @ concat (map snd ts)"
  by (induction ts arbitrary: acc) (simp_all add: ap_par_def map_task_def)

lemma array_sequence_failure:
  "fst (array_sequence ts) = Inl e \<Longrightarrow> \<exists>t\<in>set ts. fst t = Inl e"
  using fst_array_sequence_aux [of "taskEither_of []" ts e]
  by (simp add: array_sequence_def taskEither_of_def)

lemma array_sequence_calls: "snd (array_sequence ts) = concat (map snd ts)"
  by (simp add: array_sequence_def snd_array_sequence_aux taskEither_of_def)


lemma message_status_calls:
  assumes "c \<in> set (snd (backupAndDeleteMessageStatus m udb message))"
  shows "child_call m udb c"
  using walker_calls(1) [OF assms [unfolded backupAndDeleteMessageStatus_def walk_def snd_conv]]
    save_status [of m udb owner]
  by (auto simp: saveCall_def artifact_def intro: child_call.intros)

lemma notification_status_calls:
  assumes "c \<in> set (snd (backupAndDeleteNotificationStatus m udb n))"
  shows "child_call m udb c"
  using walker_calls(1) [OF assms [unfolded backupAndDeleteNotificationStatus_def walk_def snd_conv]]
    save_notification_status [of m udb owner]
  by (auto simp: saveCall_def artifact_def intro: child_call.intros)

lemma notification_calls:
  assumes "c \<in> set (snd (backupAndDeleteNotification m udb n))"
  shows "child_call m udb c"
  using assms save_notification [of m udb owner n]
  by (auto simp: backupAndDeleteNotification_def task_defs saveDataToBlob_def fromQueryEither_def
      artifact_def intro: child_call.intros split: sum.splits option.splits if_splits)

lemma content_calls:
  assumes "c \<in> set (snd (backupAndDeleteMessageContent m udb message))"
  shows "child_call m udb c"
  using assms save_content [of m udb "message_id message"]
  by (auto simp: backupAndDeleteMessageContent_def task_defs saveDataToBlob_def fromQueryEither_def
      artifact_def intro: child_call.intros split: sum.splits option.splits if_splits)

lemma sequenceT_seq_calls:
  "c \<in> set (snd (sequenceT_seq a b)) \<Longrightarrow> c \<in> set (snd a) \<or> c \<in> set (snd b)"
  by (auto simp: task_defs split: sum.splits)

lemma sequenceT_seq_failure:
  "fst (sequenceT_seq a b) = Inl e \<Longrightarrow> fst a = Inl e \<or> fst b = Inl e"
  by (auto simp: task_defs split: sum.splits)

lemma sequenceT_par_calls: "snd (sequenceT_par a b c) = snd a @ snd b @ snd c"
  by (simp add: task_defs)

lemma sequenceT_par_failure:
  "fst (sequenceT_par a b c) = Inl e \<Longrightarrow> fst a = Inl e \<or> fst b = Inl e \<or> fst c = Inl e"
  by (auto simp: task_defs split: sum.splits)

lemma sequenceT_par_fails:
  "isl (fst a) \<or> isl (fst b) \<or> isl (fst c) \<Longrightarrow> isl (fst (sequenceT_par a b c))"
  by (auto simp: task_defs isl_def split: sum.splits)

lemma chain_calls:
  "c \<in> set (snd (chain t f)) \<Longrightarrow> c \<in> set (snd t) \<or> (\<exists>a. fst t = Inr a \<and> c \<in> set (snd (f a)))"
  by (auto simp: task_defs split: sum.splits)

lemma chain_failure:
  "fst (chain t f) = Inl e \<Longrightarrow> fst t = Inl e \<or> (\<exists>a. fst t = Inr a \<and> fst (f a) = Inl e)"
  by (auto simp: task_defs split: sum.splits)

lemma chain_failed: "fst t = Inl e \<Longrightarrow> chain t f = (Inl e, snd t)"
  by (simp add: task_defs)

lemma chain_succeeded: "fst t = Inr a \<Longrightarrow> chain t f = (fst (f a), snd t @ snd (f a))"
  by (simp add: task_defs)

lemma notifications_calls:
  assumes "c \<in> set (snd (backupAndDeleteAllNotificationsData m udb message))"
  shows "child_call m udb c"
proof (cases "findNotificationsForMessage m (message_id message)" rule: liftQuery.cases)
  case (1 x)
  with assms show ?thesis
    by (auto simp: backupAndDeleteAllNotificationsData_def task_defs fromQueryEither_def
        intro: child_call.intros)
next
  case (2 q)
  with assms show ?thesis
    by (cases q) (auto simp: backupAndDeleteAllNotificationsData_def task_defs fromQueryEither_def
        intro: child_call.intros)
next
  case (3 ns)
  with assms have "c = FindNotificationsForMessage (message_id message)
      \<or> (\<exists>n\<in>set ns. c \<in> set (snd (sequenceT_seq
              (backupAndDeleteNotificationStatus m udb n) (backupAndDeleteNotification m udb n))))"
    by (auto simp: backupAndDeleteAllNotificationsData_def foldTaskEither_def mapLeft_def
        fromQueryEither_def array_sequence_calls)
  then show ?thesis
    using notification_status_calls [of c m udb] notification_calls [of c m udb]
    by (auto dest!: sequenceT_seq_calls intro: child_call.intros)
qed

lemma children_calls:
  assumes "c \<in> set (snd (backupAndDeleteMessageChildren m udb message))"
  shows "child_call m udb c"
  using assms content_calls [of c m udb message] message_status_calls [of c m udb message]
    notifications_calls [of c m udb message]
  by (auto simp: backupAndDeleteMessageChildren_def sequenceT_par_calls)

lemma child_not_message: "child_call m udb c \<Longrightarrow> \<not> is_message_call udb c"
  by (induction rule: child_call.induct)
     (simp_all add: artifact_def blobPath_prefix)

lemma child_not_profile: "child_call m udb c \<Longrightarrow> \<not> is_profile_call udb c"
  by (induction rule: child_call.induct)
     (simp_all add: artifact_def blobPath_prefix)

lemma message_calls:
  assumes "c \<in> set (snd (backupAndDeleteMessage m udb message))"
  shows "c = artifact m udb owner (Message message)
         \<or> c = DeleteMessage (message_fiscalCode message) (message_id message)"
  using assms
  by (auto simp: backupAndDeleteMessage_def task_defs saveDataToBlob_def fromQueryEither_def
      artifact_def split: sum.splits option.splits if_splits)

lemma message_not_profile:
  "c \<in> set (snd (backupAndDeleteMessage m udb message)) \<Longrightarrow> \<not> is_profile_call udb c"
  using message_calls [of c m udb message "[]"] by (auto simp: artifact_def blobPath_prefix)

lemma message_data_not_profile:
  assumes "c \<in> set (snd (backupAndDeleteMessageData m udb message))"
  shows "\<not> is_profile_call udb c"
  using chain_calls [OF assms [unfolded backupAndDeleteMessageData_def]]
    children_calls [of c m udb message] child_not_profile [of m udb c]
    message_not_profile [of c m udb message]
  by auto

lemma messages_not_profile:
  assumes "c \<in> set (snd (backupAndDeleteAllMessagesData m udb fc))"
  shows "\<not> is_profile_call udb c"
proof (cases "findMessages m fc" rule: liftQuery.cases)
  case (1 x)
  with assms show ?thesis
    by (auto simp: backupAndDeleteAllMessagesData_def task_defs fromQueryEither_def)
next
  case (2 q)
  with assms show ?thesis
    by (cases q) (auto simp: backupAndDeleteAllMessagesData_def task_defs fromQueryEither_def)
next
  case (3 ms)
  with assms have "c = FindMessages fc
      \<or> (\<exists>message\<in>set ms. c \<in> set (snd (backupAndDeleteMessageData m udb message)))"
    by (auto simp: backupAndDeleteAllMessagesData_def foldTaskEither_def mapLeft_def
        fromQueryEither_def array_sequence_calls)
  then show ?thesis using message_data_not_profile [of c m udb] by auto
qed

section \<open>Children before their parent\<close>

text \<open>
  C3. For a message, when the content step, the walk over the status versions or the
  notifications step fails, the task of the message fails with the calls of these three
  steps only: none of them deletes a message or writes a blob named \<^verbatim>\<open>message--\<close>,
  so the backup and delete of the message is not invoked. In the same way a notification
  is not backed up or deleted when the walk over its status versions fails.
\<close>

theorem failed_children_block_message:
  "(isl (fst (backupAndDeleteMessageContent m udb message))
      \<or> isl (fst (backupAndDeleteMessageStatus m udb message))
      \<or> isl (fst (backupAndDeleteAllNotificationsData m udb message))
    \<longrightarrow> isl (fst (backupAndDeleteMessageData m udb message))
        \<and> snd (backupAndDeleteMessageData m udb message)
            = snd (backupAndDeleteMessageContent m udb message)
              @ snd (backupAndDeleteMessageStatus m udb message)
              @ snd (backupAndDeleteAllNotificationsData m udb message)
        \<and> (\<forall>c\<in>set (snd (backupAndDeleteMessageData m udb message)). \<not> is_message_call udb c))
   \<and> (isl (fst (backupAndDeleteNotificationStatus m udb notification))
        \<longrightarrow> sequenceT_seq (backupAndDeleteNotificationStatus m udb notification)
              (backupAndDeleteNotification m udb notification)
            = (Inl (projl (fst (backupAndDeleteNotificationStatus m udb notification))),
               snd (backupAndDeleteNotificationStatus m udb notification)))"
proof (intro conjI impI)
  assume a: "isl (fst (backupAndDeleteMessageContent m udb message))
      \<or> isl (fst (backupAndDeleteMessageStatus m udb message))
      \<or> isl (fst (backupAndDeleteAllNotificationsData m udb message))"
  then have "isl (fst (backupAndDeleteMessageChildren m udb message))"
    unfolding backupAndDeleteMessageChildren_def by (rule sequenceT_par_fails)
  then obtain e where e: "fst (backupAndDeleteMessageChildren m udb message) = Inl e"
    by (auto simp: isl_def)
  have d: "backupAndDeleteMessageData m udb message
             = (Inl e, snd (backupAndDeleteMessageChildren m udb message))"
    unfolding backupAndDeleteMessageData_def using e by (rule chain_failed)
  show "isl (fst (backupAndDeleteMessageData m udb message))" by (simp add: d)
  show "snd (backupAndDeleteMessageData m udb message)
            = snd (backupAndDeleteMessageContent m udb message)
              @ snd (backupAndDeleteMessageStatus m udb message)
              @ snd (backupAndDeleteAllNotificationsData m udb message)"
    by (simp add: d backupAndDeleteMessageChildren_def sequenceT_par_calls)
  show "\<forall>c\<in>set (snd (backupAndDeleteMessageData m udb message)). \<not> is_message_call udb c"
    using children_calls [of _ m udb message] child_not_message [of m udb] by (auto simp: d)
next
  assume "isl (fst (backupAndDeleteNotificationStatus m udb notification))"
  then show "sequenceT_seq (backupAndDeleteNotificationStatus m udb notification)
              (backupAndDeleteNotification m udb notification)
            = (Inl (projl (fst (backupAndDeleteNotificationStatus m udb notification))),
               snd (backupAndDeleteNotificationStatus m udb notification))"
    by (auto simp: task_defs isl_def)
qed

theorem failed_children_block_message_witness:
  "isl (fst (backupAndDeleteMessageStatus broken_status_models demo_backup demo_message))
   \<and> fst (backupAndDeleteMessageData broken_status_models demo_backup demo_message)
       = Inl (QueryFailure ''request timeout'' None)
   \<and> snd (backupAndDeleteMessageData broken_status_models demo_backup demo_message)
       = [GetContentFromBlob ''M1'', ExecuteNext (MessageStatusVersions ''M1''),
          FindNotificationsForMessage ''M1'']"
proof -
  have s: "isl (fst (backupAndDeleteMessageStatus broken_status_models demo_backup demo_message))"
    by (simp add: scenario_defs demo_defs run_defs task_defs)
  have c: "snd (backupAndDeleteMessageContent broken_status_models demo_backup demo_message)
             = [GetContentFromBlob ''M1'']"
    by (simp add: scenario_defs demo_defs run_defs task_defs)
  have t: "snd (backupAndDeleteMessageStatus broken_status_models demo_backup demo_message)
             = [ExecuteNext (MessageStatusVersions ''M1'')]"
    by (simp add: scenario_defs demo_defs run_defs task_defs)
  have n: "snd (backupAndDeleteAllNotificationsData broken_status_models demo_backup demo_message)
             = [FindNotificationsForMessage ''M1'']"
    by (simp add: scenario_defs demo_defs run_defs task_defs)
  have r: "fst (backupAndDeleteMessageData broken_status_models demo_backup demo_message)
       = Inl (QueryFailure ''request timeout'' None)"
    by (simp add: scenario_defs demo_defs run_defs task_defs)
  from failed_children_block_message [of broken_status_models demo_backup demo_message] s c t n r
  show ?thesis by simp
qed

section \<open>The profile last\<close>

text \<open>
  C4. When the cascade over the messages of the user fails, the cascade of the user is
  that failure with the calls of the messages cascade only, none of which queries, backs
  up or deletes a profile version, and the activity returns that failure. When it
  succeeds, the calls of the profile walk follow those of the messages cascade, which
  hold no profile call.
\<close>

theorem profile_after_messages:
  "(\<forall>e. fst (backupAndDeleteAllMessagesData m udb fc) = Inl e \<longrightarrow>
        backupAndDeleteAllUserData m udb fc = (Inl e, snd (backupAndDeleteAllMessagesData m udb fc))
      \<and> (\<forall>c\<in>set (snd (backupAndDeleteAllUserData m udb fc)). \<not> is_profile_call udb c)
      \<and> (\<forall>i. decode input = Inr i \<longrightarrow> fiscalCode i = fc \<longrightarrow> folder udb = Some (backupFolder i)
            \<longrightarrow> fst (createDeleteUserDataActivityHandler decode m (blobService udb)
                       (containerName udb) input) = ActivityResultFailure e))
   \<and> (\<forall>v. fst (backupAndDeleteAllMessagesData m udb fc) = Inr v \<longrightarrow>
        backupAndDeleteAllUserData m udb fc
          = (fst (backupAndDeleteProfile m udb fc),
             snd (backupAndDeleteAllMessagesData m udb fc) @ snd (backupAndDeleteProfile m udb fc))
      \<and> (\<forall>c\<in>set (snd (backupAndDeleteAllMessagesData m udb fc)). \<not> is_profile_call udb c))"
proof (intro conjI allI impI ballI)
  fix e
  assume e: "fst (backupAndDeleteAllMessagesData m udb fc) = Inl e"
  then show d: "backupAndDeleteAllUserData m udb fc
                  = (Inl e, snd (backupAndDeleteAllMessagesData m udb fc))"
    unfolding backupAndDeleteAllUserData_def by (rule chain_failed)
  {
    fix c
    assume "c \<in> set (snd (backupAndDeleteAllUserData m udb fc))"
    then show "\<not> is_profile_call udb c" using messages_not_profile [of c m udb fc] by (simp add: d)
  }
  fix i
  assume i: "decode input = Inr i" "fiscalCode i = fc" and f: "folder udb = Some (backupFolder i)"
  have "\<lparr>blobService = blobService udb, containerName = containerName udb,
          folder = Some (backupFolder i)\<rparr> = udb"
    using f by (cases udb) simp
  with i show "fst (createDeleteUserDataActivityHandler decode m (blobService udb)
                       (containerName udb) input) = ActivityResultFailure e"
    using d by (simp add: createDeleteUserDataActivityHandler_def chain_def foldTaskEither_def)
next
  fix v
  assume "fst (backupAndDeleteAllMessagesData m udb fc) = Inr v"
  then show "backupAndDeleteAllUserData m udb fc
          = (fst (backupAndDeleteProfile m udb fc),
             snd (backupAndDeleteAllMessagesData m udb fc) @ snd (backupAndDeleteProfile m udb fc))"
    unfolding backupAndDeleteAllUserData_def by (rule chain_succeeded)
  fix c
  assume "c \<in> set (snd (backupAndDeleteAllMessagesData m udb fc))"
  then show "\<not> is_profile_call udb c" by (rule messages_not_profile)
qed

theorem profile_after_messages_witness:
  "fst (backupAndDeleteAllMessagesData broken_status_models demo_backup ''AAABBB'')
     = Inl (QueryFailure ''request timeout'' None)
   \<and> backupAndDeleteAllUserData broken_status_models demo_backup ''AAABBB''
     = (Inl (QueryFailure ''request timeout'' None),
        [FindMessages ''AAABBB'', GetContentFromBlob ''M1'',
         ExecuteNext (MessageStatusVersions ''M1''), FindNotificationsForMessage ''M1''])
   \<and> fst (createDeleteUserDataActivityHandler (\<lambda>u. Inr demo_input) broken_status_models
            (blobService demo_backup) (containerName demo_backup) ())
     = ActivityResultFailure (QueryFailure ''request timeout'' None)
   \<and> fst (backupAndDeleteAllMessagesData demo_models demo_backup ''AAABBB'') = Inr [demo_message]
   \<and> snd (backupAndDeleteAllUserData demo_models demo_backup ''AAABBB'')
     = snd (backupAndDeleteAllMessagesData demo_models demo_backup ''AAABBB'')
       @ snd (backupAndDeleteProfile demo_models demo_backup ''AAABBB'')"
proof -
  have f: "fst (backupAndDeleteAllMessagesData broken_status_models demo_backup ''AAABBB'')
     = Inl (QueryFailure ''request timeout'' None)"
    by (simp add: scenario_defs demo_defs run_defs task_defs)
  have c: "snd (backupAndDeleteAllMessagesData broken_status_models demo_backup ''AAABBB'')
     = [FindMessages ''AAABBB'', GetContentFromBlob ''M1'',
         ExecuteNext (MessageStatusVersions ''M1''), FindNotificationsForMessage ''M1'']"
    by (simp add: scenario_defs demo_defs run_defs task_defs)
  have i: "(\<lambda>u::unit. (Inr demo_input :: string + ActivityInput)) () = Inr demo_input
           \<and> fiscalCode demo_input = ''AAABBB''
           \<and> folder demo_backup = Some (backupFolder demo_input)"
    by (simp add: demo_defs scenario_defs)
  have s: "fst (backupAndDeleteAllMessagesData demo_models demo_backup ''AAABBB'') = Inr [demo_message]"
    by (simp add: demo_defs run_defs task_defs)
  from profile_after_messages [of broken_status_models demo_backup "''AAABBB''"
      "\<lambda>u. Inr demo_input" "()"] f i
  have 1: "backupAndDeleteAllUserData broken_status_models demo_backup ''AAABBB''
             = (Inl (QueryFailure ''request timeout'' None),
                snd (backupAndDeleteAllMessagesData broken_status_models demo_backup ''AAABBB''))
         \<and> fst (createDeleteUserDataActivityHandler (\<lambda>u. Inr demo_input) broken_status_models
                  (blobService demo_backup) (containerName demo_backup) ())
             = ActivityResultFailure (QueryFailure ''request timeout'' None)"
    by blast
  from profile_after_messages [of demo_models demo_backup "''AAABBB''" "\<lambda>u. Inr demo_input" "()"] s
  have 2: "backupAndDeleteAllUserData demo_models demo_backup ''AAABBB''
          = (fst (backupAndDeleteProfile demo_models demo_backup ''AAABBB''),
             snd (backupAndDeleteAllMessagesData demo_models demo_backup ''AAABBB'')
               @ snd (backupAndDeleteProfile demo_models demo_backup ''AAABBB''))"
    by blast
  from 1 2 f c s show ?thesis by simp
qed

section \<open>The names of the backup blobs\<close>







section \<open>The kinds of result of the activity\<close>

lemma save_delete_failure:
  "fst (sequenceT_seq (saveDataToBlob js udb name d)
          (mapLeft toDocumentDeleteFailure (fromQueryEither c p))) = Inl e \<Longrightarrow> is_data_failure e"
  by (auto simp: task_defs saveDataToBlob_def fromQueryEither_def toDocumentDeleteFailure_def
      split: sum.splits option.splits promised.splits query_error.splits)

lemma map_task_failure: "fst (map_task f t) = Inl e \<Longrightarrow> fst t = Inl e"
  by (auto simp: map_task_def split: sum.splits)

lemma notification_failure:
  "fst (backupAndDeleteNotification m udb n) = Inl e \<Longrightarrow> is_data_failure e"
  unfolding backupAndDeleteNotification_def
  by (drule map_task_failure) (rule save_delete_failure)

lemma message_failure:
  "fst (backupAndDeleteMessage m udb message) = Inl e \<Longrightarrow> is_data_failure e"
  unfolding backupAndDeleteMessage_def
  by (drule map_task_failure) (rule save_delete_failure)

lemma content_failure:
  assumes "fst (backupAndDeleteMessageContent m udb message) = Inl e"
  shows "is_data_failure e"
proof (cases "getContentFromBlob m (message_id message)" rule: liftQuery.cases)
  case (1 x)
  with assms show ?thesis
    by (simp add: backupAndDeleteMessageContent_def fromQueryEither_def foldTaskEither_def
        taskEither_of_def)
next
  case (2 q)
  with assms show ?thesis
    by (cases q) (simp_all add: backupAndDeleteMessageContent_def fromQueryEither_def
        foldTaskEither_def taskEither_of_def)
next
  case (3 r)
  show ?thesis
  proof (cases r)
    case None
    with 3 assms show ?thesis
      by (simp add: backupAndDeleteMessageContent_def fromQueryEither_def foldTaskEither_def
          taskEither_of_def)
  next
    case (Some content)
    with 3 assms have "fst (map_task (\<lambda>_. Some content)
        (sequenceT_seq
           (saveDataToBlob (\<lambda>d. JSON_stringify m (Content d)) udb
              (''messagecontent--'' @ message_id message @ ''.json'') content)
           (mapLeft toDocumentDeleteFailure
              (fromQueryEither (DeleteContentFromBlob (message_id message))
                 (deleteContentFromBlob m (message_id message)))))) = Inl e"
      by (simp add: backupAndDeleteMessageContent_def fromQueryEither_def foldTaskEither_def)
    then show ?thesis by (auto dest!: map_task_failure save_delete_failure)
  qed
qed

lemma walk_failure: "fst (walk (executeRecursiveBackupAndDelete js del udb mk it)) = Inl e
    \<Longrightarrow> is_data_failure e"
  by (simp add: walk_def walker_failure_kind)

lemma query_array_failure:
  assumes "fst (foldTaskEither (\<lambda>e. (Inl e, [])) (\<lambda>xs. array_sequence (map f xs))
                  (mapLeft (\<lambda>msg. toQueryFailure (AnError msg)) (fromQueryEither c p))) = Inl e"
    and "\<And>x e. fst (f x) = Inl e \<Longrightarrow> is_data_failure e"
  shows "is_data_failure e"
proof (cases p rule: liftQuery.cases)
  case (1 x)
  with assms(1) show ?thesis
    by (auto simp: foldTaskEither_def mapLeft_def fromQueryEither_def)
next
  case (2 q)
  with assms(1) show ?thesis
    by (cases q) (auto simp: foldTaskEither_def mapLeft_def fromQueryEither_def)
next
  case (3 xs)
  with assms(1) have "fst (array_sequence (map f xs)) = Inl e"
    by (simp add: foldTaskEither_def mapLeft_def fromQueryEither_def)
  from array_sequence_failure [OF this] assms(2) show ?thesis by auto
qed

lemma notifications_failure:
  assumes "fst (backupAndDeleteAllNotificationsData m udb message) = Inl e"
  shows "is_data_failure e"
proof (rule query_array_failure [OF assms [unfolded backupAndDeleteAllNotificationsData_def]])
  fix n e'
  assume "fst (sequenceT_seq (backupAndDeleteNotificationStatus m udb n)
                 (backupAndDeleteNotification m udb n)) = Inl e'"
  from sequenceT_seq_failure [OF this] show "is_data_failure e'"
    using notification_failure [of m udb n e']
    by (auto simp: backupAndDeleteNotificationStatus_def dest: walk_failure)
qed

lemma message_data_failure:
  assumes "fst (backupAndDeleteMessageData m udb message) = Inl e"
  shows "is_data_failure e"
proof -
  from chain_failure [OF assms [unfolded backupAndDeleteMessageData_def]]
  have "fst (backupAndDeleteMessageChildren m udb message) = Inl e
        \<or> fst (backupAndDeleteMessage m udb message) = Inl e"
    by auto
  then show ?thesis
  proof
    assume "fst (backupAndDeleteMessageChildren m udb message) = Inl e"
    from sequenceT_par_failure [OF this [unfolded backupAndDeleteMessageChildren_def]]
    show ?thesis
      using content_failure [of m udb message e] notifications_failure [of m udb message e]
      by (auto simp: backupAndDeleteMessageStatus_def dest: walk_failure)
  next
    assume "fst (backupAndDeleteMessage m udb message) = Inl e"
    then show ?thesis by (rule message_failure)
  qed
qed

lemma cascade_failure:
  assumes "fst (backupAndDeleteAllUserData m udb fc) = Inl e"
  shows "is_data_failure e"
proof -
  from chain_failure [OF assms [unfolded backupAndDeleteAllUserData_def]]
  have "fst (backupAndDeleteAllMessagesData m udb fc) = Inl e
        \<or> fst (backupAndDeleteProfile m udb fc) = Inl e"
    by auto
  then show ?thesis
  proof
    assume "fst (backupAndDeleteAllMessagesData m udb fc) = Inl e"
    from query_array_failure [OF this [unfolded backupAndDeleteAllMessagesData_def]]
    show ?thesis using message_data_failure by blast
  next
    assume "fst (backupAndDeleteProfile m udb fc) = Inl e"
    then show ?thesis by (auto simp: backupAndDeleteProfile_def dest: walk_failure)
  qed
qed

lemma data_failure_kind: "is_data_failure e \<Longrightarrow> failure_kind e \<noteq> ''USER_NOT_FOUND_FAILURE''"
  by (cases e) simp_all

text \<open>
  C10. Whatever its input and its collaborators, the activity does not return a result of
  kind \<^verbatim>\<open>USER_NOT_FOUND_FAILURE\<close>. For a valid input whose user has no message and no
  profile version left, it returns success after the two queries.
\<close>

theorem never_user_not_found:
  "kind (fst (createDeleteUserDataActivityHandler decode m bs cn input)) \<noteq> ''USER_NOT_FOUND_FAILURE''
   \<and> (\<forall>i. decode input = Inr i \<longrightarrow> findMessages m (fiscalCode i) = Resolved (Inr [])
          \<longrightarrow> (findAllProfileVersions m (fiscalCode i) = []
               \<or> (\<exists>rest. findAllProfileVersions m (fiscalCode i) = Resolved (Inr None) # rest))
          \<longrightarrow> createDeleteUserDataActivityHandler decode m bs cn input
               = (ActivityResultSuccess,
                  [FindMessages (fiscalCode i), ExecuteNext (ProfileVersions (fiscalCode i))]))"
proof (intro conjI allI impI)
  show "kind (fst (createDeleteUserDataActivityHandler decode m bs cn input))
          \<noteq> ''USER_NOT_FOUND_FAILURE''"
  proof (cases "decode input")
    case (Inl reason)
    then show ?thesis
      by (simp add: createDeleteUserDataActivityHandler_def chain_def foldTaskEither_def)
  next
    case (Inr i)
    let ?t = "backupAndDeleteAllUserData m
                \<lparr>blobService = bs, containerName = cn, folder = Some (backupFolder i)\<rparr>
                (fiscalCode i)"
    show ?thesis
    proof (cases "fst ?t")
      case (Inl e)
      from data_failure_kind [OF cascade_failure [OF Inl]] Inl Inr show ?thesis
        by (simp add: createDeleteUserDataActivityHandler_def chain_def foldTaskEither_def)
    next
      case r: (Inr v)
      with Inr show ?thesis
        by (simp add: createDeleteUserDataActivityHandler_def chain_def foldTaskEither_def)
    qed
  qed
next
  fix i
  assume i: "decode input = Inr i"
    and ms: "findMessages m (fiscalCode i) = Resolved (Inr [])"
    and ps: "findAllProfileVersions m (fiscalCode i) = []
               \<or> (\<exists>rest. findAllProfileVersions m (fiscalCode i) = Resolved (Inr None) # rest)"
  let ?udb = "\<lparr>blobService = bs, containerName = cn, folder = Some (backupFolder i)\<rparr>"
  have 1: "backupAndDeleteAllMessagesData m ?udb (fiscalCode i)
             = (Inr [], [FindMessages (fiscalCode i)])"
    using ms by (simp add: backupAndDeleteAllMessagesData_def task_defs fromQueryEither_def
        array_sequence_def)
  have 2: "backupAndDeleteProfile m ?udb (fiscalCode i)
             = (Inr [], [ExecuteNext (ProfileVersions (fiscalCode i))])"
    using ps by (auto simp: backupAndDeleteProfile_def walk_def
        executeRecursiveBackupAndDelete.simps executeNext_def)
  from i 1 2 show "createDeleteUserDataActivityHandler decode m bs cn input
               = (ActivityResultSuccess,
                  [FindMessages (fiscalCode i), ExecuteNext (ProfileVersions (fiscalCode i))])"
    by (simp add: createDeleteUserDataActivityHandler_def backupAndDeleteAllUserData_def
        chain_def foldTaskEither_def)
qed

theorem never_user_not_found_witness:
  "createDeleteUserDataActivityHandler (\<lambda>u. Inr demo_input) empty_models (\<lambda>_ _ _. None)
       ''backups'' ()
     = (ActivityResultSuccess, [FindMessages ''AAABBB'', ExecuteNext (ProfileVersions ''AAABBB'')])
   \<and> kind (fst (createDeleteUserDataActivityHandler (\<lambda>u. Inr demo_input) empty_models
                  (\<lambda>_ _ _. None) ''backups'' ())) \<noteq> ''USER_NOT_FOUND_FAILURE''"
proof -
  have h: "(\<lambda>u::unit. (Inr demo_input :: string + ActivityInput)) () = Inr demo_input
        \<and> findMessages empty_models (fiscalCode demo_input) = Resolved (Inr [])
        \<and> findAllProfileVersions empty_models (fiscalCode demo_input) = []"
    by (simp add: scenario_defs demo_defs)
  from never_user_not_found [of "\<lambda>u. Inr demo_input" empty_models "\<lambda>_ _ _. None" "''backups''" "()"] h
  show ?thesis by (simp add: demo_input_def)
qed

section \<open>Missing message content\<close>

lemma content_absent:
  assumes "\<forall>c. getContentFromBlob m (message_id message) \<noteq> Resolved (Inr (Some c))"
  shows "backupAndDeleteMessageContent m udb message
           = (Inr None, [GetContentFromBlob (message_id message)])"
proof (cases "getContentFromBlob m (message_id message)")
  case (Rejected x)
  then show ?thesis
    by (simp add: backupAndDeleteMessageContent_def fromQueryEither_def task_defs)
next
  case (Resolved e)
  show ?thesis
  proof (cases e)
    case (Inl q)
    with Resolved show ?thesis
      by (cases q) (simp_all add: backupAndDeleteMessageContent_def fromQueryEither_def task_defs)
  next
    case (Inr r)
    with Resolved assms have "r = None" by (cases r) auto
    with Resolved Inr show ?thesis
      by (simp add: backupAndDeleteMessageContent_def fromQueryEither_def task_defs)
  qed
qed

text \<open>
  C9. When the read of the content of a message does not produce a content (the read is
  rejected, fails, or finds no document), the content step succeeds with no content and
  its only call is the read: nothing is saved to the backup and nothing is deleted. The
  cascade of the message goes on: when the status versions and the notifications succeed,
  the message itself is backed up and deleted.
\<close>

theorem missing_content_is_success:
  assumes "\<forall>c. getContentFromBlob m (message_id message) \<noteq> Resolved (Inr (Some c))"
  shows "backupAndDeleteMessageContent m udb message
           = (Inr None, [GetContentFromBlob (message_id message)])
       \<and> (\<forall>s n. fst (backupAndDeleteMessageStatus m udb message) = Inr s
             \<longrightarrow> fst (backupAndDeleteAllNotificationsData m udb message) = Inr n
             \<longrightarrow> backupAndDeleteMessageData m udb message
                   = (fst (backupAndDeleteMessage m udb message),
                      GetContentFromBlob (message_id message)
                        # snd (backupAndDeleteMessageStatus m udb message)
                        @ snd (backupAndDeleteAllNotificationsData m udb message)
                        @ snd (backupAndDeleteMessage m udb message)))"
  using content_absent [OF assms, of udb]
  by (simp add: backupAndDeleteMessageData_def backupAndDeleteMessageChildren_def task_defs)

theorem missing_content_is_success_witness:
  "(\<forall>c. getContentFromBlob demo_models (message_id demo_message) \<noteq> Resolved (Inr (Some c)))
   \<and> backupAndDeleteMessageContent demo_models demo_backup demo_message
       = (Inr None, [GetContentFromBlob ''M1''])
   \<and> fst (backupAndDeleteMessageStatus demo_models demo_backup demo_message)
       = Inr [Nested [Item demo_status]]
   \<and> fst (backupAndDeleteAllNotificationsData demo_models demo_backup demo_message) = Inr []
   \<and> fst (backupAndDeleteMessageData demo_models demo_backup demo_message) = Inr demo_message"
proof -
  have h: "\<forall>c. getContentFromBlob demo_models (message_id demo_message) \<noteq> Resolved (Inr (Some c))"
    by (simp add: demo_defs)
  have s: "fst (backupAndDeleteMessageStatus demo_models demo_backup demo_message)
       = Inr [Nested [Item demo_status]]"
    by (simp add: demo_defs run_defs task_defs)
  have n: "fst (backupAndDeleteAllNotificationsData demo_models demo_backup demo_message) = Inr []"
    by (simp add: demo_defs run_defs task_defs)
  have b: "fst (backupAndDeleteMessage demo_models demo_backup demo_message) = Inr demo_message"
    by (simp add: demo_defs run_defs task_defs)
  from missing_content_is_success [OF h, of demo_backup] s n b
  show ?thesis using h by (simp add: demo_message_def)
qed

section \<open>Properties of the workflow\<close>

lemmas workflow_defs = workflow_def fail_job_def processable_def setStatusStep_def
  demo_job_def demo_steps_def demo_policy_def demo_env_def closing_fails_env_def
  store_down_env_def mail_fails_env_def wip_fails_env_def numeral_3_eq_3

lemma attempt_step_succeeds:
  "\<exists>j\<ge>k. j < k + n \<and> runStep env name job j = None \<Longrightarrow>
   fst (attempt_step env job name k n) = Inr ()"
proof (induction n arbitrary: k)
  case 0
  then show ?case by auto
next
  case (Suc n)
  show ?case
  proof (cases "runStep env name job k")
    case None
    then show ?thesis by simp
  next
    case (Some why)
    from Suc.prems obtain j where j: "k \<le> j" "j < k + Suc n" "runStep env name job j = None"
      by blast
    with Some have "j \<noteq> k" by auto
    with j have "\<exists>j\<ge>Suc k. j < Suc k + n \<and> runStep env name job j = None"
      by (intro exI [of _ j]) auto
    from Suc.IH [OF this] Some j \<open>j \<noteq> k\<close> show ?thesis by (cases n) auto
  qed
qed

lemma attempt_step_fails:
  "fst (attempt_step env job name k n) = Inl why \<Longrightarrow>
   \<forall>j\<ge>k. j < k + n \<longrightarrow> runStep env name job j \<noteq> None"
proof (induction n arbitrary: k)
  case 0
  then show ?case by simp
next
  case (Suc n)
  show ?case
  proof (cases "runStep env name job k")
    case None
    with Suc.prems show ?thesis by simp
  next
    case (Some w)
    show ?thesis
    proof (cases "n = 0")
      case True
      with Some show ?thesis by (auto simp: le_less_Suc_eq)
    next
      case False
      with Some Suc.prems have "fst (attempt_step env job name (Suc k) n) = Inl why" by simp
      from Suc.IH [OF this]
      have ih: "\<forall>j\<ge>Suc k. j < Suc k + n \<longrightarrow> runStep env name job j \<noteq> None" .
      show ?thesis
      proof (intro allI impI)
        fix j
        assume j: "k \<le> j" "j < k + Suc n"
        show "runStep env name job j \<noteq> None"
        proof (cases "j = k")
          case True
          with Some show ?thesis by simp
        next
          case False
          with j have "Suc k \<le> j" "j < Suc k + n" by simp_all
          with ih show ?thesis by blast
        qed
      qed
    qed
  qed
qed

lemma attempt_step_calls: "filter is_persist (snd (attempt_step env job name k n)) = []"
  by (induction n arbitrary: k) (auto split: option.splits)

lemma run_steps_calls: "filter is_persist (snd (run_steps env policy job names)) = []"
  by (induction names) (auto simp: attempt_step_calls split: sum.splits)

lemma step_succeeds_attempt:
  "step_succeeds env policy job name \<Longrightarrow>
   fst (attempt_step env job name 0 (maxAttempts policy)) = Inr ()"
  by (rule attempt_step_succeeds) (auto simp: step_succeeds_def)

lemma run_steps_succeeds:
  "\<forall>name\<in>set names. step_succeeds env policy job name \<Longrightarrow>
   fst (run_steps env policy job names) = Inr ()"
  by (induction names) (simp_all add: step_succeeds_attempt)

lemma run_steps_fails:
  "fst (run_steps env policy job names) = Inl (name, why) \<Longrightarrow>
   name \<in> set names \<and> \<not> step_succeeds env policy job name"
proof (induction names)
  case Nil
  then show ?case by simp
next
  case (Cons n ns)
  show ?case
  proof (cases "fst (attempt_step env job n 0 (maxAttempts policy))")
    case (Inl w)
    with Cons.prems have "n = name" by simp
    with attempt_step_fails [OF Inl] show ?thesis by (auto simp: step_succeeds_def)
  next
    case (Inr u)
    with Cons show ?thesis by simp
  qed
qed

text \<open>
  C6. A job whose status is WIP or CLOSED is not processed again: the outcome of the
  workflow is "not processable", which is neither a failure report nor a fatal error, and
  no call is made: no status is persisted and no business step is attempted.
\<close>

theorem skipped_when_not_processable:
  "job_status job = WIP \<or> job_status job = CLOSED \<Longrightarrow>
   workflow env policy steps job = (NotProcessable, [])"
  by (auto simp: workflow_def processable_def)

theorem skipped_when_not_processable_witness:
  "job_status (demo_job\<lparr>job_status := CLOSED\<rparr>) = CLOSED
   \<and> workflow demo_env demo_policy demo_steps (demo_job\<lparr>job_status := CLOSED\<rparr>)
       = (NotProcessable, [])"
  using skipped_when_not_processable [of "demo_job\<lparr>job_status := CLOSED\<rparr>" demo_env demo_policy
      demo_steps]
  by simp

text \<open>
  C7. For a pending job, when the two status updates succeed and every business step
  succeeds within its attempts, the workflow returns its success value and persists a
  status exactly twice: WIP for the pending job first, CLOSED for the job in progress
  after that.
\<close>

theorem pending_job_closes:
  assumes "job_status job = PENDING"
    and "persistStatus env job WIP = None"
    and "\<forall>name\<in>set steps. step_succeeds env policy (job\<lparr>job_status := WIP\<rparr>) name"
    and "persistStatus env (job\<lparr>job_status := WIP\<rparr>) CLOSED = None"
  shows "fst (workflow env policy steps job) = OrchestratorSuccess
       \<and> filter is_persist (snd (workflow env policy steps job))
           = [PersistStatus job WIP, PersistStatus (job\<lparr>job_status := WIP\<rparr>) CLOSED]"
  using assms run_steps_succeeds [OF assms(3)]
  by (simp add: workflow_def processable_def Let_def run_steps_calls)

theorem pending_job_closes_witness:
  "job_status demo_job = PENDING
   \<and> persistStatus demo_env demo_job WIP = None
   \<and> demo_steps = [''extractUserDataActivity'', ''sendUserDataDownloadMessageActivity'']
   \<and> step_succeeds demo_env demo_policy (demo_job\<lparr>job_status := WIP\<rparr>) ''extractUserDataActivity''
   \<and> step_succeeds demo_env demo_policy (demo_job\<lparr>job_status := WIP\<rparr>)
         ''sendUserDataDownloadMessageActivity''
   \<and> persistStatus demo_env (demo_job\<lparr>job_status := WIP\<rparr>) CLOSED = None
   \<and> fst (workflow demo_env demo_policy demo_steps demo_job) = OrchestratorSuccess
   \<and> filter is_persist (snd (workflow demo_env demo_policy demo_steps demo_job))
       = [PersistStatus demo_job WIP, PersistStatus (demo_job\<lparr>job_status := WIP\<rparr>) CLOSED]"
proof -
  have s: "\<And>name. step_succeeds demo_env demo_policy (demo_job\<lparr>job_status := WIP\<rparr>) name"
    unfolding step_succeeds_def by (rule exI [of _ 1]) (simp add: demo_policy_def demo_env_def)
  have 1: "job_status demo_job = PENDING" by (simp add: demo_job_def)
  have 2: "persistStatus demo_env demo_job WIP = None" by (simp add: demo_env_def)
  have 3: "\<forall>name\<in>set demo_steps.
             step_succeeds demo_env demo_policy (demo_job\<lparr>job_status := WIP\<rparr>) name"
    using s by blast
  have 4: "persistStatus demo_env (demo_job\<lparr>job_status := WIP\<rparr>) CLOSED = None"
    by (simp add: demo_env_def)
  from pending_job_closes [OF 1 2 3 4] 1 2 4 s show ?thesis by (simp add: demo_steps_def)
qed

text \<open>
  C8, as the model has it. For an accepted job, when the persistence of WIP fails, when a
  business step exhausts its attempts, or when the persistence of CLOSED fails, the last
  call of the workflow asks for the transition to FAILED. When that persistence succeeds
  the workflow returns the failure report with the name of the failing step, and with the
  status that was being set when the failing step is a status update; when it fails as
  well, the workflow ends with the fatal orchestration error.
\<close>

theorem failed_step_is_reported:
  assumes "processable job"
  shows
   "(\<forall>why. persistStatus env job WIP = Some why \<longrightarrow>
        snd (workflow env policy steps job) = [PersistStatus job WIP, PersistStatus job FAILED]
      \<and> (persistStatus env job FAILED = None \<longrightarrow>
            fst (workflow env policy steps job) = ActivityFailure setStatusStep why (Some WIP))
      \<and> (\<forall>err. persistStatus env job FAILED = Some err \<longrightarrow>
            fst (workflow env policy steps job) = FatalOrchestrationError err))
    \<and> (persistStatus env job WIP = None \<longrightarrow>
        (\<forall>name why. fst (run_steps env policy (job\<lparr>job_status := WIP\<rparr>) steps) = Inl (name, why) \<longrightarrow>
            name \<in> set steps \<and> \<not> step_succeeds env policy (job\<lparr>job_status := WIP\<rparr>) name
          \<and> snd (workflow env policy steps job)
              = PersistStatus job WIP # snd (run_steps env policy (job\<lparr>job_status := WIP\<rparr>) steps)
                  @ [PersistStatus (job\<lparr>job_status := WIP\<rparr>) FAILED]
          \<and> (persistStatus env (job\<lparr>job_status := WIP\<rparr>) FAILED = None \<longrightarrow>
                fst (workflow env policy steps job) = ActivityFailure name why None)
          \<and> (\<forall>err. persistStatus env (job\<lparr>job_status := WIP\<rparr>) FAILED = Some err \<longrightarrow>
                fst (workflow env policy steps job) = FatalOrchestrationError err))
      \<and> (\<forall>why. fst (run_steps env policy (job\<lparr>job_status := WIP\<rparr>) steps) = Inr () \<longrightarrow>
            persistStatus env (job\<lparr>job_status := WIP\<rparr>) CLOSED = Some why \<longrightarrow>
            snd (workflow env policy steps job)
              = PersistStatus job WIP # snd (run_steps env policy (job\<lparr>job_status := WIP\<rparr>) steps)
                  @ [PersistStatus (job\<lparr>job_status := WIP\<rparr>) CLOSED,
                     PersistStatus (job\<lparr>job_status := WIP\<rparr>) FAILED]
          \<and> (persistStatus env (job\<lparr>job_status := WIP\<rparr>) FAILED = None \<longrightarrow>
                fst (workflow env policy steps job)
                  = ActivityFailure setStatusStep why (Some CLOSED))
          \<and> (\<forall>err. persistStatus env (job\<lparr>job_status := WIP\<rparr>) FAILED = Some err \<longrightarrow>
                fst (workflow env policy steps job) = FatalOrchestrationError err)))"
proof (intro conjI allI impI)
  fix name why
  assume "fst (run_steps env policy (job\<lparr>job_status := WIP\<rparr>) steps) = Inl (name, why)"
  from run_steps_fails [OF this]
  show "name \<in> set steps" and "\<not> step_succeeds env policy (job\<lparr>job_status := WIP\<rparr>) name"
    by simp_all
qed (use assms in \<open>simp_all add: workflow_def fail_job_def Let_def split: option.splits\<close>)

theorem failed_step_is_reported_witness:
  "processable demo_job
   \<and> persistStatus wip_fails_env demo_job WIP = Some ''conflict''
   \<and> workflow wip_fails_env demo_policy demo_steps demo_job
       = (ActivityFailure ''setUserDataProcessingStatusActivity'' ''conflict'' (Some WIP),
          [PersistStatus demo_job WIP, PersistStatus demo_job FAILED])
   \<and> fst (run_steps mail_fails_env demo_policy (demo_job\<lparr>job_status := WIP\<rparr>) demo_steps)
       = Inl (''sendUserDataDownloadMessageActivity'', ''no mail'')
   \<and> fst (workflow mail_fails_env demo_policy demo_steps demo_job)
       = ActivityFailure ''sendUserDataDownloadMessageActivity'' ''no mail'' None
   \<and> persistStatus closing_fails_env (demo_job\<lparr>job_status := WIP\<rparr>) CLOSED = Some ''conflict''
   \<and> fst (workflow closing_fails_env demo_policy demo_steps demo_job)
       = ActivityFailure ''setUserDataProcessingStatusActivity'' ''conflict'' (Some CLOSED)"
proof -
  let ?wip = "demo_job\<lparr>job_status := WIP\<rparr>"
  have p: "processable demo_job" by (simp add: workflow_defs)
  have a: "persistStatus wip_fails_env demo_job WIP = Some ''conflict''
           \<and> persistStatus wip_fails_env demo_job FAILED = None"
    by (simp add: workflow_defs)
  have b: "persistStatus mail_fails_env demo_job WIP = None
           \<and> fst (run_steps mail_fails_env demo_policy ?wip demo_steps)
               = Inl (''sendUserDataDownloadMessageActivity'', ''no mail'')
           \<and> persistStatus mail_fails_env ?wip FAILED = None"
    by (simp add: workflow_defs)
  have c: "persistStatus closing_fails_env demo_job WIP = None
           \<and> fst (run_steps closing_fails_env demo_policy ?wip demo_steps) = Inr ()
           \<and> persistStatus closing_fails_env ?wip CLOSED = Some ''conflict''
           \<and> persistStatus closing_fails_env ?wip FAILED = None"
    by (simp add: workflow_defs)
  from failed_step_is_reported [OF p, of wip_fails_env demo_policy demo_steps] a
  have 1: "snd (workflow wip_fails_env demo_policy demo_steps demo_job)
             = [PersistStatus demo_job WIP, PersistStatus demo_job FAILED]
         \<and> fst (workflow wip_fails_env demo_policy demo_steps demo_job)
             = ActivityFailure setStatusStep ''conflict'' (Some WIP)"
    by simp
  from failed_step_is_reported [OF p, of mail_fails_env demo_policy demo_steps] b
  have 2: "fst (workflow mail_fails_env demo_policy demo_steps demo_job)
             = ActivityFailure ''sendUserDataDownloadMessageActivity'' ''no mail'' None"
    by simp
  from failed_step_is_reported [OF p, of closing_fails_env demo_policy demo_steps] c
  have 3: "fst (workflow closing_fails_env demo_policy demo_steps demo_job)
             = ActivityFailure setStatusStep ''conflict'' (Some CLOSED)"
    by simp
  from p a b c 1 2 3 show ?thesis
    by (simp add: setStatusStep_def prod_eq_iff)
qed

text \<open>
  C8 as stated does not hold: when the persistence of WIP fails and the persistence of
  FAILED fails too, the job is not moved to FAILED and no failure report is returned.
\<close>

theorem failed_transition_is_fatal:
  "processable demo_job
   \<and> persistStatus store_down_env demo_job WIP = Some ''store down''
   \<and> workflow store_down_env demo_policy demo_steps demo_job
       = (FatalOrchestrationError ''store down'',
          [PersistStatus demo_job WIP, PersistStatus demo_job FAILED])"
  by (simp add: workflow_defs)

end
